theory Spec2Isabelle
  imports Main
begin

unbundle bit_operations_syntax

section \<open>Python values shared by the three programs\<close>

text \<open>
  The exceptions the modelled code can raise. \<open>InvalidBXJSon\<close> is the decoder's own
  exception class (Labs1/bxc.py); the others are Python's built-in ones, raised by
  subscripting, by calls with the wrong number of arguments and by \<open>getattr\<close>.
  \<open>AttributeError\<close> carries the name of the attribute that was not found.
\<close>

datatype pyerror = InvalidBXJSon | KeyError | IndexError | TypeError | AttributeError string

text \<open>Python's \<open>str\<close> on an unbounded integer: decimal digits, a leading minus sign.\<close>

definition digit_char :: "nat \<Rightarrow> char" where
  "digit_char d = ''0123456789'' ! d"

function str_nat :: "nat \<Rightarrow> string" where
  "str_nat n = (if n < 10 then [digit_char n] else str_nat (n div 10) @ [digit_char (n mod 10)])"
  by pat_completeness auto
termination
  by (relation "measure id") auto

declare str_nat.simps [simp del]

definition str_int :: "int \<Rightarrow> string" where
  "str_int i = (if i < 0 then CHR ''-'' # str_nat (nat (- i)) else str_nat (nat i))"

section \<open>Labs2/bxc-skeleton.py: syntax tree, three-address code, maximal munch\<close>

datatype name = Name (name_value: string)

datatype expression =
    VarExpression name
  | IntExpression int
  | OpAppExpression string "expression list"

text \<open>\<open>VarDeclStatement\<close> has the two fields \<open>name\<close> and \<open>init\<close>.\<close>

datatype statement =
    VarDeclStatement name expression
  | AssignStatement name expression
  | PrintStatement expression

type_synonym Program = "statement list"

text \<open>The operator tables of the parser (\<open>Parser.UNIOP\<close>, \<open>Parser.BINOP\<close>), in source order.\<close>

definition UNIOP :: "(string \<times> string) list" where
  "UNIOP = [(''-'', ''opposite''), (''~'', ''bitwise-negation'')]"

definition BINOP :: "(string \<times> string) list" where
  "BINOP =
    [(''+'', ''addition''),
     (''-'', ''subtraction''),
     (''*'', ''multiplication''),
     (''/'', ''division''),
     (''%'', ''modulus''),
     (''>>'', ''logical-right-shift''),
     (''<<'', ''logical-left-shift''),
     (''&'', ''bitwise-and''),
     (''|'', ''bitwise-or''),
     (''^'', ''bitwise-xor'')]"

text \<open>The dictionary \<open>OPCODES\<close>; \<open>OPCODES[operator]\<close> raises \<open>KeyError\<close> on a missing key.\<close>

definition OPCODES :: "string \<rightharpoonup> string" where
  "OPCODES = map_of
    [(''opposite'', ''neg''),
     (''addition'', ''add''),
     (''subtraction'', ''sub''),
     (''multiplication'', ''mul''),
     (''division'', ''div''),
     (''modulus'', ''mod''),
     (''bitwise-negation'', ''not''),
     (''bitwise-and'', ''and''),
     (''bitwise-or'', ''or''),
     (''bitwise-xor'', ''xor''),
     (''logical-shift-left'', ''shl''),
     (''logical-shift-right'', ''shr'')]"

record TAC =
  opcode :: string
  arguments :: "string list"
  result :: "string option"

text \<open>
  The state of an \<open>MM\<close> object: \<open>_counter\<close>, \<open>_tac\<close> and \<open>_vars\<close>. Every method takes
  the state and returns the new one; a method that raises returns \<open>Inl\<close>.
\<close>

record MM =
  counter :: int
  tac :: "TAC list"
  vars :: "string \<rightharpoonup> string"

definition MM_init :: MM where
  "MM_init = \<lparr>counter = - 1, tac = [], vars = Map.empty\<rparr>"

definition fresh_temporary :: "MM \<Rightarrow> string \<times> MM" where
  "fresh_temporary s =
     (let s' = s\<lparr>counter := counter s + 1\<rparr>
      in (CHR ''%'' # str_int (counter s'), s'))"

text \<open>
  \<open>push(opcode, *arguments, result=None)\<close>: \<open>result\<close> is keyword-only, so every
  positional argument after the opcode lands in \<open>arguments\<close>.
\<close>

definition push :: "MM \<Rightarrow> string \<Rightarrow> string list \<Rightarrow> string option \<Rightarrow> MM" where
  "push s opc args res = s\<lparr>tac := tac s @ [\<lparr>opcode = opc, arguments = args, result = res\<rparr>]\<rparr>"

text \<open>
  \<open>for_expression\<close>; \<open>for_arguments\<close> is the list comprehension
  \<open>[self.for_expression(e) for e in arguments]\<close>. In the \<open>OpAppExpression\<close> case the
  target is minted before the arguments are lowered, and \<open>OPCODES[operator]\<close> is read
  after them.
\<close>

fun for_expression :: "MM \<Rightarrow> expression \<Rightarrow> pyerror + (string \<times> MM)"
  and for_arguments :: "MM \<Rightarrow> expression list \<Rightarrow> pyerror + (string list \<times> MM)" where
  "for_expression s (VarExpression n) =
     (case vars s (name_value n) of
        None \<Rightarrow> Inl KeyError
      | Some target \<Rightarrow> Inr (target, s))"
| "for_expression s (IntExpression v) =
     (let (target, s1) = fresh_temporary s
      in Inr (target, push s1 ''const'' [str_int v] (Some target)))"
| "for_expression s (OpAppExpression operator args) =
     (let (target, s1) = fresh_temporary s
      in case for_arguments s1 args of
           Inl e \<Rightarrow> Inl e
         | Inr (temps, s2) \<Rightarrow>
             (case OPCODES operator of
                None \<Rightarrow> Inl KeyError
              | Some mnemonic \<Rightarrow> Inr (target, push s2 mnemonic temps (Some target))))"
| "for_arguments s [] = Inr ([], s)"
| "for_arguments s (e # es) =
     (case for_expression s e of
        Inl err \<Rightarrow> Inl err
      | Inr (t, s1) \<Rightarrow>
          (case for_arguments s1 es of
             Inl err \<Rightarrow> Inl err
           | Inr (ts, s2) \<Rightarrow> Inr (t # ts, s2)))"

text \<open>
  \<open>for_statement\<close>. The pattern \<open>VarDeclStatement(name)\<close> binds the first field only.
  In that case \<open>self._vars[name.value]\<close> is read right after it was bound to the fresh
  temporary, and is passed to \<open>push\<close> as a second positional argument.
\<close>

fun for_statement :: "MM \<Rightarrow> statement \<Rightarrow> pyerror + MM" where
  "for_statement s (VarDeclStatement n init) =
     (let (t, s1) = fresh_temporary s;
          s2 = s1\<lparr>vars := (vars s1)(name_value n \<mapsto> t)\<rparr>
      in Inr (push s2 ''const'' [''0'', t] None))"
| "for_statement s (AssignStatement lhs rhs) =
     (case for_expression s rhs of
        Inl e \<Rightarrow> Inl e
      | Inr (temp, s1) \<Rightarrow>
          (case vars s1 (name_value lhs) of
             None \<Rightarrow> Inl KeyError
           | Some dst \<Rightarrow> Inr (push s1 ''copy'' [temp] (Some dst))))"
| "for_statement s (PrintStatement v) =
     (case for_expression s v of
        Inl e \<Rightarrow> Inl e
      | Inr (temp, s1) \<Rightarrow> Inr (push s1 ''print'' [temp] None))"

fun for_program :: "MM \<Rightarrow> Program \<Rightarrow> pyerror + MM" where
  "for_program s [] = Inr s"
| "for_program s (stmt # prgm) =
     (case for_statement s stmt of
        Inl e \<Rightarrow> Inl e
      | Inr s1 \<Rightarrow> for_program s1 prgm)"

definition mm :: "Program \<Rightarrow> pyerror + TAC list" where
  "mm prgm = (case for_program MM_init prgm of Inl e \<Rightarrow> Inl e | Inr s \<Rightarrow> Inr (tac s))"

text \<open>The program \<open>var x; x = 1 + 2; print x;\<close> of scenario A.\<close>

definition scenario_A :: Program where
  "scenario_A =
    [VarDeclStatement (Name ''x'') (IntExpression 0),
     AssignStatement (Name ''x'')
       (OpAppExpression ''addition'' [IntExpression 1, IntExpression 2]),
     PrintStatement (VarExpression (Name ''x''))]"

section \<open>Labs1/tac2arm.py: the code emitter\<close>

text \<open>
  A \<open>CodeEmitter\<close> object: \<open>_temps\<close>, a dictionary from temporaries to slot indices
  (kept in insertion order, as a Python dictionary is), and \<open>_asm\<close>, the list of
  emitted lines. An instruction is read as the three fields \<open>instr['opcode']\<close>,
  \<open>instr['args']\<close> and \<open>instr['result']\<close> of the interchange object, here the
  record \<open>TAC\<close>.
\<close>

record CodeEmitter =
  temps :: "(string \<times> int) list"
  asm :: "string list"

definition CodeEmitter_init :: CodeEmitter where
  "CodeEmitter_init = \<lparr>temps = [], asm = []\<rparr>"

text \<open>\<open>dict.setdefault\<close>: the stored value, or the default after storing it.\<close>

definition setdefault :: "(string \<times> int) list \<Rightarrow> string \<Rightarrow> int \<Rightarrow> int \<times> (string \<times> int) list" where
  "setdefault d k v = (case map_of d k of Some w \<Rightarrow> (w, d) | None \<Rightarrow> (v, d @ [(k, v)]))"

definition CodeEmitter_temp :: "CodeEmitter \<Rightarrow> string \<Rightarrow> string \<times> CodeEmitter" where
  "CodeEmitter_temp e temp =
     (let (index, d) = setdefault (temps e) temp (int (length (temps e)))
      in (''[SP, #'' @ str_int (8 * index) @ '']'', e\<lparr>temps := d\<rparr>))"

text \<open>\<open>sep.join(xs)\<close>.\<close>

fun join :: "string \<Rightarrow> string list \<Rightarrow> string" where
  "join sep [] = []"
| "join sep [x] = x"
| "join sep (x # y # ys) = x @ sep @ join sep (y # ys)"

definition get_asm :: "string \<Rightarrow> string list \<Rightarrow> string" where
  "get_asm opc args = (if args = [] then opc else opc @ [CHR 0x09] @ join '', '' args)"

definition emit :: "CodeEmitter \<Rightarrow> string \<Rightarrow> string list \<Rightarrow> CodeEmitter" where
  "emit e opc args = e\<lparr>asm := asm e @ [get_asm opc args]\<rparr>"

definition emit_const :: "CodeEmitter \<Rightarrow> string \<Rightarrow> string \<Rightarrow> CodeEmitter" where
  "emit_const e ctt dst =
     (let e1 = emit e ''mov'' [''X2'', ''#'' @ ctt];
          (a, e2) = CodeEmitter_temp e1 dst
      in emit e2 ''str'' [''X2'', a])"

definition emit_copy :: "CodeEmitter \<Rightarrow> string \<Rightarrow> string \<Rightarrow> CodeEmitter" where
  "emit_copy e src dst =
     (let (a, e1) = CodeEmitter_temp e src;
          e2 = emit e1 ''ldr'' [''X2'', a];
          (b, e3) = CodeEmitter_temp e2 dst
      in emit e3 ''str'' [''X2'', b])"

definition emit_alu2 :: "CodeEmitter \<Rightarrow> string \<Rightarrow> string \<Rightarrow> string \<Rightarrow> string \<Rightarrow> CodeEmitter" where
  "emit_alu2 e opc op1 op2 dst =
     (let (a, e1) = CodeEmitter_temp e op1;
          e2 = emit e1 ''ldr'' [''X0'', a];
          (b, e3) = CodeEmitter_temp e2 op2;
          e4 = emit e3 ''ldr'' [''X1'', b];
          e5 = emit e4 opc [''X2'', ''X0'', ''X1''];
          (c, e6) = CodeEmitter_temp e5 dst
      in emit e6 ''str'' [''X2'', c])"

definition emit_mod :: "CodeEmitter \<Rightarrow> string \<Rightarrow> string \<Rightarrow> string \<Rightarrow> CodeEmitter" where
  "emit_mod e op1 op2 dst =
     (let (a, e1) = CodeEmitter_temp e op1;
          e2 = emit e1 ''ldr'' [''X0'', a];
          (b, e3) = CodeEmitter_temp e2 op2;
          e4 = emit e3 ''ldr'' [''X1'', b];
          e5 = emit e4 ''sdiv'' [''X2'', ''X0'', ''X1''];
          e6 = emit e5 ''mul'' [''X2'', ''X2'', ''X1''];
          e7 = emit e6 ''sub'' [''X2'', ''X0'', ''X2''];
          (c, e8) = CodeEmitter_temp e7 dst
      in emit e8 ''str'' [''X2'', c])"

definition emit_print :: "CodeEmitter \<Rightarrow> string \<Rightarrow> CodeEmitter" where
  "emit_print e arg =
     (let (a, e1) = CodeEmitter_temp e arg;
          e2 = emit e1 ''ldr'' [''X2'', a];
          e3 = emit e2 ''stp'' [''X29'', ''X30'', ''[SP, #-16]!''];
          e4 = emit e3 ''str'' [''X2'', ''[SP, #-16]!''];
          e5 = emit e4 ''adrp'' [''X0'', ''l._dformat@PAGE''];
          e6 = emit e5 ''add'' [''X0'', ''X0'', ''l._dformat@PAGEOFF''];
          e7 = emit e6 ''bl'' [''_printf''];
          e8 = emit e7 ''add'' [''SP'', ''SP'', ''#16'']
      in emit e8 ''ldp'' [''X29'', ''X30'', ''[SP]'', ''#16''])"

text \<open>
  A bound method called with \<open>*args\<close>: a call with the wrong number of positional
  arguments raises \<open>TypeError\<close> before the body runs.
\<close>

type_synonym bound_method = "CodeEmitter \<Rightarrow> string list \<Rightarrow> pyerror + CodeEmitter"

fun method1 :: "(CodeEmitter \<Rightarrow> string \<Rightarrow> CodeEmitter) \<Rightarrow> bound_method" where
  "method1 f e [a] = Inr (f e a)"
| "method1 f e args = Inl TypeError"

fun method2 :: "(CodeEmitter \<Rightarrow> string \<Rightarrow> string \<Rightarrow> CodeEmitter) \<Rightarrow> bound_method" where
  "method2 f e [a, b] = Inr (f e a b)"
| "method2 f e args = Inl TypeError"

fun method3 :: "(CodeEmitter \<Rightarrow> string \<Rightarrow> string \<Rightarrow> string \<Rightarrow> CodeEmitter) \<Rightarrow> bound_method" where
  "method3 f e [a, b, c] = Inr (f e a b c)"
| "method3 f e args = Inl TypeError"

fun method4 :: "(CodeEmitter \<Rightarrow> string \<Rightarrow> string \<Rightarrow> string \<Rightarrow> string \<Rightarrow> CodeEmitter) \<Rightarrow> bound_method" where
  "method4 f e [a, b, c, d] = Inr (f e a b c d)"
| "method4 f e args = Inl TypeError"

text \<open>
  The attributes of a \<open>CodeEmitter\<close> whose names start with \<open>_emit_\<close>, which is what
  \<open>getattr(self, f'_emit_{opcode}')\<close> can find.
\<close>

definition emit_methods :: "(string \<times> bound_method) list" where
  "emit_methods =
    [(''_emit_const'', method2 emit_const),
     (''_emit_copy'', method2 emit_copy),
     (''_emit_alu2'', method4 emit_alu2),
     (''_emit_add'', method3 (\<lambda>e. emit_alu2 e ''add'')),
     (''_emit_sub'', method3 (\<lambda>e. emit_alu2 e ''sub'')),
     (''_emit_mul'', method3 (\<lambda>e. emit_alu2 e ''mul'')),
     (''_emit_div'', method3 (\<lambda>e. emit_alu2 e ''sdiv'')),
     (''_emit_mod'', method3 emit_mod),
     (''_emit_and'', method3 (\<lambda>e. emit_alu2 e ''and'')),
     (''_emit_or'', method3 (\<lambda>e. emit_alu2 e ''orr'')),
     (''_emit_xor'', method3 (\<lambda>e. emit_alu2 e ''eor'')),
     (''_emit_shl'', method3 (\<lambda>e. emit_alu2 e ''lsl'')),
     (''_emit_shr'', method3 (\<lambda>e. emit_alu2 e ''lsr'')),
     (''_emit_print'', method1 emit_print)]"

text \<open>
  \<open>__call__\<close>. \<open>operands\<close> is the local list \<open>args\<close>: a copy of \<open>instr['args']\<close> with
  the result appended when it is not \<open>None\<close>. The result pairs the exception raised,
  if any, with the state of the object after the call: both \<open>getattr\<close> and the arity
  check fail before anything is emitted.
\<close>

definition operands :: "TAC \<Rightarrow> string list" where
  "operands instr = arguments instr @ (case result instr of None \<Rightarrow> [] | Some r \<Rightarrow> [r])"

definition CodeEmitter_call :: "CodeEmitter \<Rightarrow> TAC \<Rightarrow> pyerror option \<times> CodeEmitter" where
  "CodeEmitter_call e instr =
     (let attr = ''_emit_'' @ opcode instr
      in case map_of emit_methods attr of
           None \<Rightarrow> (Some (AttributeError attr), e)
         | Some m \<Rightarrow>
             (case m e (operands instr) of
                Inl err \<Rightarrow> (Some err, e)
              | Inr e' \<Rightarrow> (None, e')))"

text \<open>The loop \<open>for instr in main: emitter(instr)\<close> of \<open>_main\<close>; it stops at the first exception.\<close>

fun emit_body :: "CodeEmitter \<Rightarrow> TAC list \<Rightarrow> pyerror option \<times> CodeEmitter" where
  "emit_body e [] = (None, e)"
| "emit_body e (instr # body) =
     (case CodeEmitter_call e instr of
        (Some err, e') \<Rightarrow> (Some err, e')
      | (None, e') \<Rightarrow> emit_body e' body)"

definition code :: "CodeEmitter \<Rightarrow> string" where
  "code e =
     (let nvars = int (length (temps e));
          nvars = nvars + (nvars AND 1);
          aout = [get_asm ''sub'' [''SP'', ''SP'', ''#'' @ str_int (8 * nvars)]]
                 @ asm e
                 @ [get_asm ''add'' [''SP'', ''SP'', ''#'' @ str_int (8 * nvars)]]
      in join [CHR 0x0A] (map (\<lambda>x. CHR 0x09 # x) aout))"

text \<open>
  The temporaries an instruction refers to, in the order the emitter meets them: its
  operands, but for the literal of a \<open>const\<close> and the mnemonic of an \<open>alu2\<close>.
\<close>

definition referenced :: "TAC \<Rightarrow> string list" where
  "referenced instr =
     (if opcode instr = ''const'' \<or> opcode instr = ''alu2''
      then tl (operands instr) else operands instr)"


text \<open>Two declared variables and one constant: three temporaries.\<close>

definition scenario_E :: "TAC list" where
  "scenario_E =
    [\<lparr>opcode = ''const'', arguments = [''0'', ''%0''], result = None\<rparr>,
     \<lparr>opcode = ''const'', arguments = [''0'', ''%1''], result = None\<rparr>,
     \<lparr>opcode = ''const'', arguments = [''7''], result = Some ''%2''\<rparr>,
     \<lparr>opcode = ''copy'', arguments = [''%2''], result = Some ''%0''\<rparr>,
     \<lparr>opcode = ''print'', arguments = [''%0''], result = None\<rparr>]"

section \<open>Labs1/bxc.py: decoding the syntax tree from JSON\<close>

text \<open>
  A value loaded by \<open>json.load\<close>. An object is the loaded dictionary: its pairs in
  insertion order, looked up by key. A float is kept as its literal; nothing computes
  with it. Strings are taken to be ASCII.
\<close>

datatype json =
    JNull
  | JBool bool
  | JInt int
  | JFloat string
  | JString string
  | JArray "json list"
  | JObject "(string \<times> json) list"

text \<open>
  The classes of Labs1/bxc.py have the names of those of Labs2/bxc-skeleton.py, so they
  carry the suffix \<open>_L1\<close> here. A dataclass does not check its fields: a name is
  whatever \<open>parse_name\<close> returned, and the value of an \<open>IntExpression\<close> whatever passed
  \<open>isinstance(value, int)\<close>.
\<close>

datatype expression_L1 =
    VarExpression_L1 json
  | IntExpression_L1 json
  | OpAppExpression_L1 json "expression_L1 list"

datatype statement_L1 =
    VarDeclStatement_L1 json
  | AssignStatement_L1 json expression_L1
  | PrintStatement_L1 expression_L1

text \<open>Sequencing of computations that may raise.\<close>

definition and_then :: "pyerror + 'a \<Rightarrow> ('a \<Rightarrow> pyerror + 'b) \<Rightarrow> pyerror + 'b" where
  "and_then m f = (case m of Inl e \<Rightarrow> Inl e | Inr x \<Rightarrow> f x)"

text \<open>\<open>try: ... except IndexError: raise InvalidBXJSon\<close>.\<close>

definition except_IndexError :: "pyerror + 'a \<Rightarrow> pyerror + 'a" where
  "except_IndexError m = (case m of Inl IndexError \<Rightarrow> Inl InvalidBXJSon | _ \<Rightarrow> m)"

text \<open>
  Subscripting, \<open>x[key]\<close> with a string key and \<open>x[i]\<close> with a literal index
  \<open>i \<ge> 0\<close>. A dictionary loaded from JSON has string keys only, so an integer key is
  missing from it.
\<close>

fun getitem_str :: "json \<Rightarrow> string \<Rightarrow> pyerror + json" where
  "getitem_str (JObject kvs) k = (case map_of kvs k of None \<Rightarrow> Inl KeyError | Some v \<Rightarrow> Inr v)"
| "getitem_str x k = Inl TypeError"

fun getitem_int :: "json \<Rightarrow> nat \<Rightarrow> pyerror + json" where
  "getitem_int (JArray xs) i = (if i < length xs then Inr (xs ! i) else Inl IndexError)"
| "getitem_int (JString s) i = (if i < length s then Inr (JString [s ! i]) else Inl IndexError)"
| "getitem_int (JObject kvs) i = Inl KeyError"
| "getitem_int x i = Inl TypeError"

text \<open>Iteration, as in \<open>f(*x)\<close> and \<open>for x in body\<close>.\<close>

fun py_iter :: "json \<Rightarrow> pyerror + json list" where
  "py_iter (JArray xs) = Inr xs"
| "py_iter (JString s) = Inr (map (\<lambda>c. JString [c]) s)"
| "py_iter (JObject kvs) = Inr (map (\<lambda>kv. JString (fst kv)) kvs)"
| "py_iter x = Inl TypeError"

text \<open>\<open>f(*x)\<close> for a function \<open>f\<close> of two positional parameters: the two arguments.\<close>

definition star2 :: "json \<Rightarrow> pyerror + (json \<times> json)" where
  "star2 x =
     (case py_iter x of
        Inl e \<Rightarrow> Inl e
      | Inr [a, b] \<Rightarrow> Inr (a, b)
      | Inr _ \<Rightarrow> Inl TypeError)"

text \<open>
  \<open>parse_tag\<close>: the regular expression \<open>^<(\w+)(?::(\w+))?>$\<close> under \<open>re.search\<close>.
  \<open>\w+\<close> is greedy and is followed by a character that is not a word character, so it
  takes the longest run of word characters; \<open>$\<close> also matches before a newline that
  ends the string. On a value that is not a string \<open>re.search\<close> raises \<open>TypeError\<close>.
\<close>

definition is_word_char :: "char \<Rightarrow> bool" where
  "is_word_char c =
     (let n = (of_char c :: nat)
      in (48 \<le> n \<and> n \<le> 57) \<or> (65 \<le> n \<and> n \<le> 90) \<or> (97 \<le> n \<and> n \<le> 122) \<or> n = 95)"

definition match_tag :: "string \<Rightarrow> (string \<times> string option) option" where
  "match_tag tag =
     (let s = (if tag \<noteq> [] \<and> last tag = CHR 0x0A then butlast tag else tag)
      in case s of
           [] \<Rightarrow> None
         | c # rest \<Rightarrow>
             if c \<noteq> CHR ''<'' then None
             else
               (let w1 = takeWhile is_word_char rest; r1 = dropWhile is_word_char rest
                in if w1 = [] then None
                   else if r1 = ''>'' then Some (w1, None)
                   else
                     (case r1 of
                        [] \<Rightarrow> None
                      | d # r2 \<Rightarrow>
                          if d \<noteq> CHR '':'' then None
                          else
                            (let w2 = takeWhile is_word_char r2; r3 = dropWhile is_word_char r2
                             in if w2 \<noteq> [] \<and> r3 = ''>'' then Some (w1, Some w2) else None))))"

fun parse_tag :: "json \<Rightarrow> pyerror + (string \<times> string option)" where
  "parse_tag (JString tag) = (case match_tag tag of None \<Rightarrow> Inl InvalidBXJSon | Some m \<Rightarrow> Inr m)"
| "parse_tag x = Inl TypeError"

text \<open>
  \<open>check_shallow_schema\<close>. The expected shape of a field is \<open>None\<close> (any value), a
  string (a tagged node of that class) or a type (only \<open>int\<close> is used; a \<open>bool\<close> is an
  instance of \<open>int\<close>).
\<close>

datatype etype = AnyValue | NodeClass string | PyInt

fun check_fields :: "(string \<times> json) list \<Rightarrow> (string \<times> etype) list \<Rightarrow> pyerror + unit" where
  "check_fields kvs [] = Inr ()"
| "check_fields kvs ((name, etype) # schema) =
     (case map_of kvs name of
        None \<Rightarrow> Inl InvalidBXJSon
      | Some v \<Rightarrow>
          (case etype of
             AnyValue \<Rightarrow> check_fields kvs schema
           | NodeClass c \<Rightarrow>
               (case v of
                  JArray [v0, v1] \<Rightarrow>
                    (case v0 of
                       JString t \<Rightarrow>
                         (case parse_tag v0 of
                            Inl e \<Rightarrow> Inl e
                          | Inr m \<Rightarrow>
                              if fst m \<noteq> c then Inl InvalidBXJSon
                              else check_fields kvs schema)
                     | _ \<Rightarrow> Inl InvalidBXJSon)
                | _ \<Rightarrow> Inl InvalidBXJSon)
           | PyInt \<Rightarrow>
               (case v of
                  JInt i \<Rightarrow> check_fields kvs schema
                | JBool b \<Rightarrow> check_fields kvs schema
                | _ \<Rightarrow> Inl InvalidBXJSon)))"

fun check_shallow_schema :: "json \<Rightarrow> (string \<times> etype) list \<Rightarrow> pyerror + unit" where
  "check_shallow_schema (JObject kvs) schema = check_fields kvs schema"
| "check_shallow_schema x schema = Inl InvalidBXJSon"

definition parse_name :: "json \<Rightarrow> pyerror + json" where
  "parse_name name =
     except_IndexError (and_then (getitem_int name 1) (\<lambda>p. getitem_str p ''value''))"

text \<open>The schemas, and the table \<open>JSON_EXPRESSIONS\<close> from kinds to schemas.\<close>

definition EXPRESSION_VAR_SCHEMA :: "(string \<times> etype) list" where
  "EXPRESSION_VAR_SCHEMA = [(''name'', NodeClass ''name'')]"

definition EXPRESSION_INT_SCHEMA :: "(string \<times> etype) list" where
  "EXPRESSION_INT_SCHEMA = [(''value'', PyInt)]"

definition EXPRESSION_UNIOP_SCHEMA :: "(string \<times> etype) list" where
  "EXPRESSION_UNIOP_SCHEMA = [(''operator'', NodeClass ''name''), (''argument'', NodeClass ''expression'')]"

definition EXPRESSION_BINOP_SCHEMA :: "(string \<times> etype) list" where
  "EXPRESSION_BINOP_SCHEMA =
     [(''operator'', NodeClass ''name''), (''left'', NodeClass ''expression''),
      (''right'', NodeClass ''expression'')]"

definition JSON_EXPRESSIONS :: "(string \<times> (string \<times> etype) list) list" where
  "JSON_EXPRESSIONS =
     [(''var'', EXPRESSION_VAR_SCHEMA),
      (''int'', EXPRESSION_INT_SCHEMA),
      (''uniop'', EXPRESSION_UNIOP_SCHEMA),
      (''binop'', EXPRESSION_BINOP_SCHEMA)]"

definition expression_var_of_json :: "json \<Rightarrow> pyerror + expression_L1" where
  "expression_var_of_json data =
     and_then (and_then (getitem_str data ''name'') parse_name) (\<lambda>n. Inr (VarExpression_L1 n))"

definition expression_int_of_json :: "json \<Rightarrow> pyerror + expression_L1" where
  "expression_int_of_json data =
     and_then (getitem_str data ''value'') (\<lambda>v. Inr (IntExpression_L1 v))"

text \<open>
  \<open>expression_of_json\<close> and the two builders that call it back. The builder of a kind
  is chosen by \<open>JSON_EXPRESSIONS[tag][1]\<close>; a tag with no kind has the kind \<open>None\<close>,
  which is not a key of the table.
\<close>

function expression_of_json :: "json \<Rightarrow> json \<Rightarrow> pyerror + expression_L1"
  and expression_uniop_of_json :: "json \<Rightarrow> pyerror + expression_L1"
  and expression_binop_of_json :: "json \<Rightarrow> pyerror + expression_L1" where
  "expression_of_json tag data =
     (case parse_tag tag of
        Inl e \<Rightarrow> Inl e
      | Inr m \<Rightarrow>
          if fst m \<noteq> ''expression'' then Inl InvalidBXJSon
          else
            (case snd m of
               None \<Rightarrow> Inl InvalidBXJSon
             | Some kind \<Rightarrow>
                 (case map_of JSON_EXPRESSIONS kind of
                    None \<Rightarrow> Inl InvalidBXJSon
                  | Some schema \<Rightarrow>
                      (case check_shallow_schema data schema of
                         Inl e \<Rightarrow> Inl e
                       | Inr u \<Rightarrow>
                           if kind = ''var'' then expression_var_of_json data
                           else if kind = ''int'' then expression_int_of_json data
                           else if kind = ''uniop'' then expression_uniop_of_json data
                           else expression_binop_of_json data))))"
| "expression_uniop_of_json data =
     (case and_then (getitem_str data ''operator'') parse_name of
        Inl e \<Rightarrow> Inl e
      | Inr operator \<Rightarrow>
          (case and_then (getitem_str data ''argument'') star2 of
             Inl e \<Rightarrow> Inl e
           | Inr a \<Rightarrow>
               (case expression_of_json (fst a) (snd a) of
                  Inl e \<Rightarrow> Inl e
                | Inr x \<Rightarrow> Inr (OpAppExpression_L1 operator [x]))))"
| "expression_binop_of_json data =
     (case and_then (getitem_str data ''operator'') parse_name of
        Inl e \<Rightarrow> Inl e
      | Inr operator \<Rightarrow>
          (case and_then (getitem_str data ''left'') star2 of
             Inl e \<Rightarrow> Inl e
           | Inr a \<Rightarrow>
               (case expression_of_json (fst a) (snd a) of
                  Inl e \<Rightarrow> Inl e
                | Inr x \<Rightarrow>
                    (case and_then (getitem_str data ''right'') star2 of
                       Inl e \<Rightarrow> Inl e
                     | Inr b \<Rightarrow>
                         (case expression_of_json (fst b) (snd b) of
                            Inl e \<Rightarrow> Inl e
                          | Inr y \<Rightarrow> Inr (OpAppExpression_L1 operator [x, y]))))))"
  by pat_completeness auto
termination
proof -
  have item: "size v < size d" if "getitem_str d k = Inr v" for d k v
  proof (cases d)
    case (JObject kvs)
    with that have "(k, v) \<in> set kvs"
      by (auto split: option.splits dest: map_of_SomeD)
    then have "size_prod (\<lambda>x. 0) size (k, v) \<le> size_list (size_prod (\<lambda>x. 0) size) kvs"
      by (simp add: size_list_estimation')
    with JObject show ?thesis by simp
  qed (use that in auto)
  have iter: "size x \<le> size a" if "py_iter a = Inr xs" and "x \<in> set xs" for a xs x
  proof (cases a)
    case (JArray ys)
    with that have "x \<in> set ys" by simp
    then have "size x \<le> size_list size ys"
      by (simp add: size_list_estimation')
    with JArray show ?thesis by simp
  qed (use that in auto)
  have star: "size (snd p) \<le> size a" if "star2 a = Inr p" for a p
  proof -
    from that obtain xs where xs: "py_iter a = Inr xs" and "snd p \<in> set xs"
      by (auto simp: star2_def split: sum.splits list.splits)
    then show ?thesis by (rule iter)
  qed
  have arg: "size (snd p) < size d" if "and_then (getitem_str d k) star2 = Inr p" for d k p
  proof -
    from that obtain v where "getitem_str d k = Inr v" and "star2 v = Inr p"
      by (auto simp: and_then_def split: sum.splits)
    with item star show ?thesis by fastforce
  qed
  show ?thesis
    by (relation "measure (\<lambda>x. case x of
          Inl (tag, data) \<Rightarrow> 2 * size data + 1
        | Inr (Inl data) \<Rightarrow> 2 * size data
        | Inr (Inr data) \<Rightarrow> 2 * size data)")
       (auto dest: arg)
qed

text \<open>
  The statement schemas. The source binds the name \<open>STATEMENT_VARDECL_SCHEMA\<close> a second
  time for the schema of an assignment; the table entry of \<open>vardecl\<close> keeps the first
  list.
\<close>

definition STATEMENT_VARDECL_SCHEMA :: "(string \<times> etype) list" where
  "STATEMENT_VARDECL_SCHEMA = [(''name'', NodeClass ''name'')]"

definition STATEMENT_VARDECL_SCHEMA_2 :: "(string \<times> etype) list" where
  "STATEMENT_VARDECL_SCHEMA_2 = [(''lvalue'', NodeClass ''lvalue''), (''rvalue'', NodeClass ''expression'')]"

definition STATEMENT_EVAL_SCHEMA :: "(string \<times> etype) list" where
  "STATEMENT_EVAL_SCHEMA = [(''expression'', NodeClass ''expression'')]"

definition JSON_STATEMENTS :: "(string \<times> (string \<times> etype) list) list" where
  "JSON_STATEMENTS =
     [(''vardecl'', STATEMENT_VARDECL_SCHEMA),
      (''assign'', STATEMENT_VARDECL_SCHEMA_2),
      (''eval'', STATEMENT_EVAL_SCHEMA)]"

definition statement_vardecl_of_json :: "json \<Rightarrow> pyerror + statement_L1" where
  "statement_vardecl_of_json data =
     and_then (and_then (getitem_str data ''name'') parse_name) (\<lambda>n. Inr (VarDeclStatement_L1 n))"

definition statement_assign_of_json :: "json \<Rightarrow> pyerror + statement_L1" where
  "statement_assign_of_json data =
     and_then
       (and_then (and_then (and_then (getitem_str data ''lvalue'') (\<lambda>l. getitem_int l 1))
          (\<lambda>p. getitem_str p ''name'')) parse_name)
       (\<lambda>lhs.
          and_then
            (and_then (and_then (getitem_str data ''rvalue'') star2)
               (\<lambda>a. expression_of_json (fst a) (snd a)))
            (\<lambda>rhs. Inr (AssignStatement_L1 lhs rhs)))"

text \<open>
  \<open>statement_eval_of_json\<close>: the two tests are inside the \<open>try\<close>, the decoding of
  \<open>expression[1]['arguments'][0]\<close> is after it.
\<close>

definition statement_eval_of_json :: "json \<Rightarrow> pyerror + statement_L1" where
  "statement_eval_of_json data =
     and_then (getitem_str data ''expression'')
       (\<lambda>expression.
          and_then
            (except_IndexError
               (and_then (getitem_int expression 0)
                  (\<lambda>t. if t \<noteq> JString ''<expression:call>'' then Inl InvalidBXJSon
                        else
                          and_then
                            (and_then
                               (and_then (getitem_int expression 1) (\<lambda>p. getitem_str p ''target''))
                               parse_name)
                            (\<lambda>n. if n \<noteq> JString ''print'' then Inl InvalidBXJSon else Inr ()))))
            (\<lambda>u.
               and_then
                 (and_then
                    (and_then
                       (and_then
                          (and_then (getitem_int expression 1) (\<lambda>p. getitem_str p ''arguments''))
                          (\<lambda>args. getitem_int args 0))
                       star2)
                    (\<lambda>a. expression_of_json (fst a) (snd a)))
                 (\<lambda>v. Inr (PrintStatement_L1 v))))"

definition statement_of_json :: "json \<Rightarrow> json \<Rightarrow> pyerror + statement_L1" where
  "statement_of_json tag data =
     (case parse_tag tag of
        Inl e \<Rightarrow> Inl e
      | Inr m \<Rightarrow>
          if fst m \<noteq> ''statement'' then Inl InvalidBXJSon
          else
            (case snd m of
               None \<Rightarrow> Inl InvalidBXJSon
             | Some kind \<Rightarrow>
                 (case map_of JSON_STATEMENTS kind of
                    None \<Rightarrow> Inl InvalidBXJSon
                  | Some schema \<Rightarrow>
                      (case check_shallow_schema data schema of
                         Inl e \<Rightarrow> Inl e
                       | Inr u \<Rightarrow>
                           if kind = ''vardecl'' then statement_vardecl_of_json data
                           else if kind = ''assign'' then statement_assign_of_json data
                           else statement_eval_of_json data))))"

text \<open>
  \<open>bxprogram_of_json\<close>; \<open>statements_of_json\<close> is the generator
  \<open>statement_of_json(*x) for x in body\<close>, consumed by \<open>list\<close>.
\<close>

fun statements_of_json :: "json list \<Rightarrow> pyerror + statement_L1 list" where
  "statements_of_json [] = Inr []"
| "statements_of_json (x # xs) =
     (case and_then (star2 x) (\<lambda>a. statement_of_json (fst a) (snd a)) of
        Inl e \<Rightarrow> Inl e
      | Inr s \<Rightarrow>
          (case statements_of_json xs of
             Inl e \<Rightarrow> Inl e
           | Inr ss \<Rightarrow> Inr (s # ss)))"

definition bxprogram_of_json :: "json \<Rightarrow> pyerror + statement_L1 list" where
  "bxprogram_of_json data =
     and_then
       (except_IndexError
          (and_then
             (and_then (and_then (getitem_str data ''ast'') (\<lambda>a. getitem_int a 0))
                (\<lambda>n. getitem_int n 1))
             (\<lambda>p. getitem_str p ''body'')))
       (\<lambda>body. and_then (py_iter body) statements_of_json)"

text \<open>Nodes used in the examples below.\<close>

definition name_node :: "string \<Rightarrow> json" where
  "name_node s = JArray [JString ''<name>'', JObject [(''value'', JString s)]]"

definition int_node :: "int \<Rightarrow> json" where
  "int_node i = JArray [JString ''<expression:int>'', JObject [(''value'', JInt i)]]"

definition call_node :: "string \<Rightarrow> json list \<Rightarrow> json" where
  "call_node target args =
     JArray [JString ''<expression:call>'',
             JObject [(''target'', name_node target), (''arguments'', JArray args)]]"

definition eval_node :: "json \<Rightarrow> json" where
  "eval_node e = JArray [JString ''<statement:eval>'', JObject [(''expression'', e)]]"
section \<open>The interchange form of an instruction\<close>

text \<open>
  \<open>TAC.tojson\<close> of Labs2/bxc-skeleton.py: the dictionary
  \<open>dict(opcode=..., args=..., result=...)\<close>, as the JSON value that \<open>json.dump\<close> writes
  (\<open>None\<close> is written as \<open>null\<close>).
\<close>

definition tojson :: "TAC \<Rightarrow> json" where
  "tojson x =
     JObject
       [(''opcode'', JString (opcode x)),
        (''args'', JArray (map JString (arguments x))),
        (''result'', case result x of None \<Rightarrow> JNull | Some r \<Rightarrow> JString r)]"

fun is_JString :: "json \<Rightarrow> bool" where
  "is_JString (JString s) = True"
| "is_JString x = False"

fun the_JString :: "json \<Rightarrow> string" where
  "the_JString (JString s) = s"
| "the_JString x = []"

text \<open>
  A well-formed interchange instruction (section 6 of the specification): an object
  with exactly the keys \<open>opcode\<close>, \<open>args\<close> and \<open>result\<close>, in any order, holding a string,
  a list of strings, and a string or \<open>null\<close>.
\<close>

definition wellformed_instr :: "json \<Rightarrow> bool" where
  "wellformed_instr d =
     (case d of
        JObject kvs \<Rightarrow>
          distinct (map fst kvs)
          \<and> set (map fst kvs) = {''opcode'', ''args'', ''result''}
          \<and> (case map_of kvs ''opcode'' of Some (JString s) \<Rightarrow> True | _ \<Rightarrow> False)
          \<and> (case map_of kvs ''args'' of Some (JArray xs) \<Rightarrow> list_all is_JString xs | _ \<Rightarrow> False)
          \<and> (case map_of kvs ''result'' of Some JNull \<Rightarrow> True | Some (JString s) \<Rightarrow> True | _ \<Rightarrow> False)
      | _ \<Rightarrow> False)"

text \<open>
  Modelled from the spec: the decoding half of the TAC codec (sections 4.3, 6 and 7 of
  the specification), which is missing from the repository. No function there builds
  an instruction from an interchange object: Labs1/tac2arm.py reads the fields
  \<open>instr['opcode']\<close>, \<open>instr['args']\<close> and \<open>instr['result']\<close> where it uses them. The
  decoder reads the same three fields and, as the specification says of every schema
  violation, fails with the structural decode error on anything else.
\<close>

definition TAC_of_json :: "json \<Rightarrow> pyerror + TAC" where
  "TAC_of_json d =
     (case d of
        JObject kvs \<Rightarrow>
          (case map_of kvs ''opcode'' of
             Some (JString opc) \<Rightarrow>
               (case map_of kvs ''args'' of
                  Some (JArray xs) \<Rightarrow>
                    (case map_of kvs ''result'' of
                       Some r \<Rightarrow>
                         if length kvs = 3 \<and> list_all is_JString xs \<and> (r = JNull \<or> is_JString r)
                         then Inr \<lparr>opcode = opc, arguments = map the_JString xs,
                                   result = (if r = JNull then None else Some (the_JString r))\<rparr>
                         else Inl InvalidBXJSon
                     | None \<Rightarrow> Inl InvalidBXJSon)
                | _ \<Rightarrow> Inl InvalidBXJSon)
           | _ \<Rightarrow> Inl InvalidBXJSon)
      | _ \<Rightarrow> Inl InvalidBXJSon)"

text \<open>
  Python's \<open>==\<close> on two values that are dictionaries without dictionaries inside: the
  same keys with the same values, in any order.
\<close>

definition dict_eq :: "json \<Rightarrow> json \<Rightarrow> bool" where
  "dict_eq a b =
     (case (a, b) of
        (JObject xs, JObject ys) \<Rightarrow>
          set (map fst xs) = set (map fst ys)
          \<and> list_all (\<lambda>k. map_of xs k = map_of ys k) (map fst xs)
      | _ \<Rightarrow> a = b)"
section \<open>Single assignment and definition before use\<close>

text \<open>
  A temporary is an operand of the form \<open>%n\<close>; the other operands are literals. The
  results of a sequence are the temporaries its instructions write, in order.
\<close>

definition is_temporary :: "string \<Rightarrow> bool" where
  "is_temporary a \<longleftrightarrow> a \<noteq> [] \<and> hd a = CHR ''%''"

definition results :: "TAC list \<Rightarrow> string list" where
  "results instrs = concat (map (\<lambda>i. case result i of None \<Rightarrow> [] | Some r \<Rightarrow> [r]) instrs)"

text \<open>Every temporary that is written is written by one instruction only.\<close>

definition single_assignment :: "TAC list \<Rightarrow> bool" where
  "single_assignment instrs \<longleftrightarrow> distinct (results instrs)"

text \<open>
  \<open>def_before_use exempt defined instrs\<close>: every temporary among the arguments of an
  instruction is, unless it is exempt, among \<open>defined\<close> or written by an earlier
  instruction of the sequence.
\<close>

fun def_before_use :: "string list \<Rightarrow> string list \<Rightarrow> TAC list \<Rightarrow> bool" where
  "def_before_use exempt defined [] = True"
| "def_before_use exempt defined (i # instrs) =
     (list_all (\<lambda>a. is_temporary a \<longrightarrow> a \<in> set exempt \<or> a \<in> set defined) (arguments i)
      \<and> def_before_use exempt (defined @ results [i]) instrs)"

text \<open>
  The temporaries that the declarations of a program bind to their variables, when the
  program is lowered from the state \<open>s\<close>.
\<close>

fun declared_temporaries :: "MM \<Rightarrow> Program \<Rightarrow> string list" where
  "declared_temporaries s [] = []"
| "declared_temporaries s (stmt # prgm) =
     (case for_statement s stmt of
        Inl e \<Rightarrow> []
      | Inr s1 \<Rightarrow>
          (case stmt of
             VarDeclStatement n init \<Rightarrow> [fst (fresh_temporary s)]
           | _ \<Rightarrow> [])
          @ declared_temporaries s1 prgm)"

text \<open>A variable assigned twice.\<close>

definition assigned_twice :: Program where
  "assigned_twice =
    [VarDeclStatement (Name ''x'') (IntExpression 0),
     AssignStatement (Name ''x'') (IntExpression 1),
     AssignStatement (Name ''x'') (IntExpression 2)]"

subsection \<open>Numbered temporaries, for the proofs\<close>

definition tmp :: "int \<Rightarrow> string" where
  "tmp k = CHR ''%'' # str_int k"

definition between :: "int \<Rightarrow> int \<Rightarrow> string \<Rightarrow> bool" where
  "between a b r \<longleftrightarrow> (\<exists>k. a < k \<and> k \<le> b \<and> r = tmp k)"

definition lowered :: "string list \<Rightarrow> MM \<Rightarrow> MM \<Rightarrow> TAC list \<Rightarrow> string list \<Rightarrow> bool" where
  "lowered V s s' ns ts \<longleftrightarrow>
     tac s' = tac s @ ns
     \<and> vars s' = vars s
     \<and> counter s \<le> counter s'
     \<and> (\<forall>r \<in> set (results ns). between (counter s) (counter s') r)
     \<and> distinct (results ns)
     \<and> (\<forall>D. def_before_use V D ns)
     \<and> (\<forall>t \<in> set ts. t \<in> ran (vars s) \<or> t \<in> set (results ns))"

definition mm_inv :: "string list \<Rightarrow> MM \<Rightarrow> bool" where
  "mm_inv V s \<longleftrightarrow>
     - 1 \<le> counter s
     \<and> ran (vars s) \<subseteq> set V
     \<and> (\<forall>t \<in> set V. between (- 1) (counter s) t)
     \<and> (\<forall>r \<in> set (results (tac s)). between (- 1) (counter s) r)
     \<and> distinct (filter (\<lambda>r. r \<notin> set V) (results (tac s)))
     \<and> def_before_use V [] (tac s)"

subsection \<open>Slot allocation, for the proofs\<close>

definition alloc :: "(string \<times> int) list \<Rightarrow> string \<Rightarrow> (string \<times> int) list" where
  "alloc d k = snd (setdefault d k (int (length d)))"

definition slots_ok :: "(string \<times> int) list \<Rightarrow> bool" where
  "slots_ok d \<longleftrightarrow> map snd d = map int [0..<length d] \<and> distinct (map fst d)"

fun first_refs :: "string list \<Rightarrow> string list \<Rightarrow> string list" where
  "first_refs seen [] = seen"
| "first_refs seen (x # xs) = first_refs (if x \<in> set seen then seen else seen @ [x]) xs"

section \<open>Evaluation lemmas\<close>

lemma str_nat_digit: "n < 10 \<Longrightarrow> str_nat n = [digit_char n]"
  by (subst str_nat.simps) simp

lemma str_int_0: "str_int 0 = ''0''"
  by (simp add: str_int_def str_nat_digit digit_char_def)

lemma str_int_1: "str_int 1 = ''1''"
  by (simp add: str_int_def str_nat_digit digit_char_def)

lemma str_int_2: "str_int 2 = ''2''"
  by (simp add: str_int_def str_nat_digit digit_char_def)

lemma str_int_3: "str_int 3 = ''3''"
  by (simp add: str_int_def str_nat_digit digit_char_def)

lemmas mm_eval =
  mm_def MM_init_def fresh_temporary_def push_def Let_def OPCODES_def
  str_int_0 str_int_1 str_int_2 str_int_3

section \<open>Scenario A\<close>

text \<open>
  Claim C2, as the code has it: lowering scenario A gives six instructions. The
  declaration emits a \<open>const\<close> instruction of its own; the target of the addition is
  minted before its operands, and the copy writes the temporary that the declaration
  bound to \<open>x\<close>, which the print then reads.
\<close>

theorem C2_scenario_A_lowering:
  "\<exists>decl. mm scenario_A = Inr
     [decl,
      \<lparr>opcode = ''const'', arguments = [''1''], result = Some ''%2''\<rparr>,
      \<lparr>opcode = ''const'', arguments = [''2''], result = Some ''%3''\<rparr>,
      \<lparr>opcode = ''add'', arguments = [''%2'', ''%3''], result = Some ''%1''\<rparr>,
      \<lparr>opcode = ''copy'', arguments = [''%1''], result = Some ''%0''\<rparr>,
      \<lparr>opcode = ''print'', arguments = [''%0''], result = None\<rparr>]
    \<and> opcode decl = ''const''"
  by (simp add: scenario_A_def mm_eval)

text \<open>
  Claim C2 as stated fails: the lowered sequence of scenario A does not have five
  instructions.
\<close>

theorem C2_scenario_A_counterexample:
  "map_sum id length (mm scenario_A) \<noteq> Inr 5"
  by (simp add: scenario_A_def mm_eval)

section \<open>Declarations\<close>

text \<open>
  Claim C3, evaluated on the code: the instruction a declaration emits has the two
  arguments \<open>0\<close> and the fresh temporary, and no result.
\<close>

theorem C3_vardecl_instruction:
  "mm [VarDeclStatement (Name ''x'') (IntExpression 5)] =
     Inr [\<lparr>opcode = ''const'', arguments = [''0'', ''%0''], result = None\<rparr>]"
  by (simp add: mm_eval)

section \<open>Operator table\<close>

text \<open>
  Claim C8, evaluated on the code: the parser's name for the right shift is not a key of
  \<open>OPCODES\<close>, and lowering an application of it raises \<open>KeyError\<close>.
\<close>

theorem C8_shift_operator_lookup_fails:
  "''logical-right-shift'' \<in> set (map snd BINOP)
   \<and> OPCODES ''logical-right-shift'' = None
   \<and> mm [PrintStatement (OpAppExpression ''logical-right-shift''
            [IntExpression 1, IntExpression 2])] = Inl KeyError"
  by (simp add: BINOP_def mm_eval)

section \<open>The code emitter: slots and unhandled opcodes\<close>

lemma temps_temp: "temps (snd (CodeEmitter_temp e t)) = alloc (temps e) t"
  by (simp add: CodeEmitter_temp_def alloc_def split: prod.splits)

lemma temps_emit: "temps (emit e opc args) = temps e"
  by (simp add: emit_def)

lemma temps_emit_const: "temps (emit_const e c d) = foldl alloc (temps e) [d]"
  by (simp add: emit_const_def Let_def temps_emit split: prod.splits)
     (metis temps_temp temps_emit snd_conv)

lemma temps_emit_copy: "temps (emit_copy e a b) = foldl alloc (temps e) [a, b]"
  by (simp add: emit_copy_def Let_def temps_emit split: prod.splits)
     (metis temps_temp temps_emit snd_conv)

lemma temps_emit_alu2: "temps (emit_alu2 e opc a b c) = foldl alloc (temps e) [a, b, c]"
  by (simp add: emit_alu2_def Let_def temps_emit split: prod.splits)
     (metis temps_temp temps_emit snd_conv)

lemma temps_emit_mod: "temps (emit_mod e a b c) = foldl alloc (temps e) [a, b, c]"
  by (simp add: emit_mod_def Let_def temps_emit split: prod.splits)
     (metis temps_temp temps_emit snd_conv)

lemma temps_emit_print: "temps (emit_print e a) = foldl alloc (temps e) [a]"
  by (simp add: emit_print_def Let_def temps_emit split: prod.splits)
     (metis temps_temp temps_emit snd_conv)

lemma method1_Inr: "method1 f e args = Inr e' \<longleftrightarrow> (\<exists>a. args = [a] \<and> e' = f e a)"
  by (cases "(f, e, args)" rule: method1.cases) auto

lemma method2_Inr: "method2 f e args = Inr e' \<longleftrightarrow> (\<exists>a b. args = [a, b] \<and> e' = f e a b)"
  by (cases "(f, e, args)" rule: method2.cases) auto

lemma method3_Inr: "method3 f e args = Inr e' \<longleftrightarrow> (\<exists>a b c. args = [a, b, c] \<and> e' = f e a b c)"
  by (cases "(f, e, args)" rule: method3.cases) auto

lemma method4_Inr: "method4 f e args = Inr e' \<longleftrightarrow> (\<exists>a b c d. args = [a, b, c, d] \<and> e' = f e a b c d)"
  by (cases "(f, e, args)" rule: method4.cases) auto

lemmas method_Inr = method1_Inr method2_Inr method3_Inr method4_Inr

lemmas temps_methods =
  temps_emit_const temps_emit_copy temps_emit_alu2 temps_emit_mod temps_emit_print

lemma call_temps:
  assumes "CodeEmitter_call e instr = (None, e')"
  shows "temps e' = foldl alloc (temps e) (referenced instr)"
proof -
  obtain m where m: "map_of emit_methods (''_emit_'' @ opcode instr) = Some m"
    and r: "m e (operands instr) = Inr e'"
    using assms by (auto simp: CodeEmitter_call_def Let_def split: option.splits sum.splits)
  from m r show ?thesis
    by (auto simp: emit_methods_def referenced_def method_Inr temps_methods split: if_splits)
qed

lemma call_error_state: "CodeEmitter_call e instr = (Some err, e') \<Longrightarrow> e' = e"
  by (auto simp: CodeEmitter_call_def Let_def split: option.splits sum.splits)

lemma body_temps:
  "emit_body e body = (None, e') \<Longrightarrow> temps e' = foldl alloc (temps e) (concat (map referenced body))"
proof (induction body arbitrary: e)
  case Nil
  then show ?case by simp
next
  case (Cons instr body)
  then show ?case
    by (auto simp: call_temps split: prod.splits option.splits)
qed

lemma alloc_keys: "map fst (alloc d k) = (if k \<in> set (map fst d) then map fst d else map fst d @ [k])"
  by (auto simp: alloc_def setdefault_def map_of_eq_None_iff split: option.splits)
     (metis domI domIff map_of_eq_None_iff set_map)+

lemma alloc_ok: "slots_ok d \<Longrightarrow> slots_ok (alloc d k)"
  by (auto simp: alloc_def setdefault_def slots_ok_def map_of_eq_None_iff split: option.splits)

lemma foldl_alloc_keys: "map fst (foldl alloc d xs) = first_refs (map fst d) xs"
  by (induction xs arbitrary: d) (simp_all add: alloc_keys)

lemma foldl_alloc_ok: "slots_ok d \<Longrightarrow> slots_ok (foldl alloc d xs)"
  by (induction xs arbitrary: d) (simp_all add: alloc_ok)

lemma remdups_snoc: "remdups (ys @ [x]) = filter (\<lambda>y. y \<noteq> x) (remdups ys) @ [x]"
  by (induction ys) auto

lemma first_refs_remdups:
  "distinct seen \<Longrightarrow>
   first_refs seen xs = seen @ rev (remdups (rev (filter (\<lambda>x. x \<notin> set seen) xs)))"
proof (induction xs arbitrary: seen)
  case Nil
  then show ?case by simp
next
  case (Cons x xs)
  show ?case
  proof (cases "x \<in> set seen")
    case True
    with Cons show ?thesis by simp
  next
    case False
    have eq: "filter (\<lambda>y. y \<notin> set (seen @ [x])) xs = filter (\<lambda>y. y \<noteq> x) (filter (\<lambda>y. y \<notin> set seen) xs)"
      by (induction xs) auto
    from False Cons.prems have "distinct (seen @ [x])" by simp
    from Cons.IH[OF this] False eq show ?thesis
      by (simp add: remdups_snoc remdups_filter rev_filter conj_commute)
  qed
qed

lemma first_refs_Nil: "first_refs [] xs = rev (remdups (rev xs))"
  using first_refs_remdups [of "[]" xs] by simp

lemma length_first_refs: "length (first_refs [] xs) = card (set xs)"
  by (simp add: first_refs_Nil length_remdups_card_conv)

lemma temp_known:
  assumes "slots_ok (temps e)" and "i < length (temps e)"
  shows "CodeEmitter_temp e (map fst (temps e) ! i) = (''[SP, #'' @ str_int (8 * int i) @ '']'', e)"
proof -
  from assms have "map_of (temps e) (map fst (temps e) ! i) = Some (map snd (temps e) ! i)"
    unfolding slots_ok_def
    by (metis (no_types, lifting) length_map map_of_zip_nth zip_map_fst_snd)
  moreover from assms have "map snd (temps e) ! i = int i"
    by (simp add: slots_ok_def)
  ultimately show ?thesis
    by (simp add: CodeEmitter_temp_def setdefault_def)
qed

lemma and_1_mod: "(int n AND 1) = int (n mod 2)"
  by (simp add: and_one_eq zmod_int)

text \<open>
  Claim C6: when the emitter has processed a whole instruction sequence that refers to
  \<open>k\<close> distinct temporaries, its slot dictionary holds exactly these \<open>k\<close> temporaries,
  in the order of their first reference, with the indices \<open>0, \<dots>, k - 1\<close> (so the
  assignment is injective); slot \<open>i\<close> is addressed as \<open>[SP, #8*i]\<close>; and the first and
  the last line of the code reserve and release \<open>8 * (k + k mod 2)\<close> bytes, a multiple
  of 16.
\<close>

theorem C6_slots:
  assumes "emit_body CodeEmitter_init body = (None, e)"
  shows "let refs = concat (map referenced body); k = card (set refs);
             frame = str_int (8 * int (k + k mod 2))
         in map fst (temps e) = rev (remdups (rev refs))
          \<and> map snd (temps e) = map int [0..<k]
          \<and> distinct (map fst (temps e))
          \<and> (\<forall>i < k. CodeEmitter_temp e (map fst (temps e) ! i)
                         = (''[SP, #'' @ str_int (8 * int i) @ '']'', e))
          \<and> code e = join [CHR 0x0A] (map (\<lambda>x. CHR 0x09 # x)
               ([''sub'' @ [CHR 0x09] @ ''SP, SP, #'' @ frame]
                @ asm e @
                [''add'' @ [CHR 0x09] @ ''SP, SP, #'' @ frame]))
          \<and> 16 dvd 8 * (k + k mod 2)"
proof -
  let ?refs = "concat (map referenced body)"
  let ?k = "card (set ?refs)"
  have t: "temps e = foldl alloc [] ?refs"
    using body_temps [OF assms] by (simp add: CodeEmitter_init_def)
  have ok: "slots_ok (temps e)"
    unfolding t by (rule foldl_alloc_ok) (simp add: slots_ok_def)
  have keys: "map fst (temps e) = rev (remdups (rev ?refs))"
    unfolding t by (simp add: foldl_alloc_keys first_refs_Nil)
  have len: "length (temps e) = ?k"
    using arg_cong [OF keys, of length] by (simp add: length_remdups_card_conv)
  have vals: "map snd (temps e) = map int [0..<?k]"
    using ok len by (simp add: slots_ok_def)
  have dist: "distinct (map fst (temps e))"
    using ok by (simp add: slots_ok_def)
  have slot: "\<forall>i < ?k. CodeEmitter_temp e (map fst (temps e) ! i)
      = (''[SP, #'' @ str_int (8 * int i) @ '']'', e)"
    using temp_known [OF ok] len by simp
  have c: "code e = join [CHR 0x0A] (map (\<lambda>x. CHR 0x09 # x)
         ([''sub'' @ [CHR 0x09] @ ''SP, SP, #'' @ str_int (8 * int (?k + ?k mod 2))]
          @ asm e @
          [''add'' @ [CHR 0x09] @ ''SP, SP, #'' @ str_int (8 * int (?k + ?k mod 2))]))"
    by (simp add: code_def Let_def len and_1_mod get_asm_def)
  have al: "16 dvd 8 * (?k + ?k mod 2)"
    by presburger
  from keys vals dist slot c al show ?thesis
    unfolding Let_def by blast
qed





lemmas emit_eval =
  CodeEmitter_call_def emit_methods_def operands_def emit_const_def emit_copy_def
  emit_alu2_def emit_mod_def emit_print_def emit_def get_asm_def CodeEmitter_temp_def
  setdefault_def CodeEmitter_init_def Let_def referenced_def

lemma scenario_E_emits: "fst (emit_body CodeEmitter_init scenario_E) = None"
  by (simp add: scenario_E_def emit_eval)

theorem C6_slots_witness:
  "fst (emit_body CodeEmitter_init scenario_E) = None
   \<and> map fst (temps (snd (emit_body CodeEmitter_init scenario_E))) = [''%0'', ''%1'', ''%2'']
   \<and> map snd (temps (snd (emit_body CodeEmitter_init scenario_E))) = [0, 1, 2]
   \<and> card (set (concat (map referenced scenario_E))) = 3
   \<and> (16::nat) dvd 8 * (3 + 3 mod 2)"
proof -
  have h: "emit_body CodeEmitter_init scenario_E = (None, snd (emit_body CodeEmitter_init scenario_E))"
    using scenario_E_emits by (metis prod.collapse)
  have r: "concat (map referenced scenario_E) = [''%0'', ''%1'', ''%2'', ''%2'', ''%0'', ''%0'']"
    by (simp add: scenario_E_def referenced_def operands_def)
  have k: "card (set (concat (map referenced scenario_E))) = 3"
    unfolding r by (simp add: card_insert_if)
  from C6_slots [OF h] show ?thesis
    unfolding Let_def k unfolding r using scenario_E_emits by (simp add: upt_rec)
qed

section \<open>The decoder: errors, \<open>eval\<close> statements and bare tags\<close>

lemmas bxc_eval =
  and_then_def except_IndexError_def star2_def parse_name_def match_tag_def is_word_char_def
  JSON_EXPRESSIONS_def JSON_STATEMENTS_def EXPRESSION_VAR_SCHEMA_def EXPRESSION_INT_SCHEMA_def
  EXPRESSION_UNIOP_SCHEMA_def EXPRESSION_BINOP_SCHEMA_def STATEMENT_VARDECL_SCHEMA_def
  STATEMENT_VARDECL_SCHEMA_2_def STATEMENT_EVAL_SCHEMA_def
  expression_var_of_json_def expression_int_of_json_def statement_vardecl_of_json_def
  statement_assign_of_json_def statement_eval_of_json_def statement_of_json_def
  bxprogram_of_json_def name_node_def int_node_def call_node_def eval_node_def

text \<open>
  Claim C4, evaluated on the code: a document with no \<open>ast\<close> key, and a declaration
  whose name node has no \<open>value\<close> field, make the decoder raise \<open>KeyError\<close>, which the
  handlers of \<open>IndexError\<close> do not catch. A document whose \<open>ast\<close> list is empty raises
  \<open>IndexError\<close>, which is caught.
\<close>

theorem C4_missing_key_raises_KeyError:
  "bxprogram_of_json (JObject []) = Inl KeyError
   \<and> parse_name (JArray [JString ''<name>'', JObject []]) = Inl KeyError
   \<and> bxprogram_of_json (JObject [(''ast'', JArray [JArray [JString ''<program>'',
        JObject [(''body'', JArray [JArray [JString ''<statement:vardecl>'',
          JObject [(''name'', JArray [JString ''<name>'', JObject []])]]])]]])]) = Inl KeyError
   \<and> bxprogram_of_json (JObject [(''ast'', JArray [])]) = Inl InvalidBXJSon"
  by (simp add: bxc_eval)

lemma tag_eval: "parse_tag (JString ''<statement:eval>'') = Inr (''statement'', Some ''eval'')"
  by (simp add: match_tag_def is_word_char_def)

lemma tag_call: "parse_tag (JString ''<expression:call>'') = Inr (''expression'', Some ''call'')"
  by (simp add: match_tag_def is_word_char_def)

lemma parse_tag_JString_error: "parse_tag (JString t) = Inl e \<Longrightarrow> e = InvalidBXJSon"
  by (auto split: option.splits)

lemma getitem_str_JObject:
  "getitem_str data k = Inr v \<Longrightarrow> \<exists>kvs. data = JObject kvs \<and> map_of kvs k = Some v"
  by (cases data) (auto split: option.splits)

lemma eval_schema_call:
  assumes "getitem_str data ''expression'' = Inr (JArray [JString ''<expression:call>'', payload])"
  shows "statement_of_json (JString ''<statement:eval>'') data = statement_eval_of_json data"
proof -
  from getitem_str_JObject [OF assms] obtain kvs where
    "data = JObject kvs" "map_of kvs ''expression'' = Some (JArray [JString ''<expression:call>'', payload])"
    by blast
  then show ?thesis
    by (simp add: statement_of_json_def tag_eval tag_call JSON_STATEMENTS_def STATEMENT_EVAL_SCHEMA_def
        del: parse_tag.simps)
qed

lemma eval_wrong_tag:
  assumes "getitem_str data ''expression'' = Inr (JArray [JString t, payload])"
    and "t \<noteq> ''<expression:call>''"
  shows "statement_of_json (JString ''<statement:eval>'') data = Inl InvalidBXJSon"
proof -
  from getitem_str_JObject [OF assms(1)] obtain kvs where
    d: "data = JObject kvs" "map_of kvs ''expression'' = Some (JArray [JString t, payload])"
    by blast
  have ev: "statement_eval_of_json data = Inl InvalidBXJSon"
    using assms by (simp add: statement_eval_of_json_def and_then_def except_IndexError_def)
  show ?thesis
  proof (cases "parse_tag (JString t)")
    case (Inl e)
    with parse_tag_JString_error [OF Inl] d show ?thesis
      by (simp add: statement_of_json_def tag_eval JSON_STATEMENTS_def STATEMENT_EVAL_SCHEMA_def
          del: parse_tag.simps)
  next
    case (Inr m)
    with d ev show ?thesis
      by (simp add: statement_of_json_def tag_eval JSON_STATEMENTS_def STATEMENT_EVAL_SCHEMA_def
          del: parse_tag.simps)
  qed
qed

text \<open>Claim C5 as stated fails: a call of \<open>print\<close> with two arguments is decoded.\<close>

theorem C5_two_arguments_counterexample:
  "statement_of_json (JString ''<statement:eval>'')
      (JObject [(''expression'', call_node ''print'' [int_node 1, int_node 2])])
    = Inr (PrintStatement_L1 (IntExpression_L1 (JInt 1)))"
  by (simp add: bxc_eval)

text \<open>
  Claim C5, amended: for an \<open>eval\<close> node whose \<open>expression\<close> field is a node
  \<open>[t, payload]\<close>, the decoding fails with \<open>InvalidBXJSon\<close> when \<open>t\<close> is not
  \<open><expression:call>\<close>, and when the target name is read and is not \<open>print\<close>. When the
  tag is \<open><expression:call>\<close>, the target name is \<open>print\<close> and the argument list has a
  first element, the result is that of decoding the first argument, wrapped in a
  \<open>PrintStatement\<close> when it succeeds; the other arguments are not looked at.
\<close>

theorem C5_eval_decoding:
  assumes "getitem_str data ''expression'' = Inr (JArray [JString t, payload])"
  shows "(t \<noteq> ''<expression:call>'' \<longrightarrow>
            statement_of_json (JString ''<statement:eval>'') data = Inl InvalidBXJSon)
       \<and> (t = ''<expression:call>''
            \<and> and_then (getitem_str payload ''target'') parse_name = Inr n
            \<and> n \<noteq> JString ''print'' \<longrightarrow>
            statement_of_json (JString ''<statement:eval>'') data = Inl InvalidBXJSon)
       \<and> (t = ''<expression:call>''
            \<and> and_then (getitem_str payload ''target'') parse_name = Inr (JString ''print'')
            \<and> getitem_str payload ''arguments'' = Inr args
            \<and> getitem_int args 0 = Inr a \<longrightarrow>
            statement_of_json (JString ''<statement:eval>'') data =
              (case and_then (star2 a) (\<lambda>q. expression_of_json (fst q) (snd q)) of
                 Inl e \<Rightarrow> Inl e
               | Inr v \<Rightarrow> Inr (PrintStatement_L1 v)))"
proof (intro conjI impI)
  assume "t \<noteq> ''<expression:call>''"
  with assms show "statement_of_json (JString ''<statement:eval>'') data = Inl InvalidBXJSon"
    by (rule eval_wrong_tag)
next
  assume a: "t = ''<expression:call>''
            \<and> and_then (getitem_str payload ''target'') parse_name = Inr n
            \<and> n \<noteq> JString ''print''"
  with assms have "statement_of_json (JString ''<statement:eval>'') data = statement_eval_of_json data"
    by (simp add: eval_schema_call)
  moreover from a assms have "statement_eval_of_json data = Inl InvalidBXJSon"
    by (auto simp: statement_eval_of_json_def and_then_def except_IndexError_def split: sum.splits)
  ultimately show "statement_of_json (JString ''<statement:eval>'') data = Inl InvalidBXJSon"
    by simp
next
  assume a: "t = ''<expression:call>''
            \<and> and_then (getitem_str payload ''target'') parse_name = Inr (JString ''print'')
            \<and> getitem_str payload ''arguments'' = Inr args
            \<and> getitem_int args 0 = Inr a"
  with assms have "statement_of_json (JString ''<statement:eval>'') data = statement_eval_of_json data"
    by (simp add: eval_schema_call)
  moreover from a assms have "statement_eval_of_json data =
      (case and_then (star2 a) (\<lambda>q. expression_of_json (fst q) (snd q)) of
                 Inl e \<Rightarrow> Inl e
               | Inr v \<Rightarrow> Inr (PrintStatement_L1 v))"
    by (auto simp: statement_eval_of_json_def and_then_def except_IndexError_def split: sum.splits)
  ultimately show "statement_of_json (JString ''<statement:eval>'') data =
      (case and_then (star2 a) (\<lambda>q. expression_of_json (fst q) (snd q)) of
                 Inl e \<Rightarrow> Inl e
               | Inr v \<Rightarrow> Inr (PrintStatement_L1 v))"
    by simp
qed

theorem C5_eval_decoding_witness:
  "statement_of_json (JString ''<statement:eval>'')
      (JObject [(''expression'', call_node ''print'' [int_node 7, JNull, JNull])])
     = Inr (PrintStatement_L1 (IntExpression_L1 (JInt 7)))
   \<and> statement_of_json (JString ''<statement:eval>'')
      (JObject [(''expression'', call_node ''exit'' [int_node 7])])
     = Inl InvalidBXJSon
   \<and> statement_of_json (JString ''<statement:eval>'')
      (JObject [(''expression'', int_node 7)])
     = Inl InvalidBXJSon"
proof -
  let ?p = "\<lambda>f xs. JObject [(''target'', name_node f), (''arguments'', JArray xs)]"
  have h1: "getitem_str (JObject [(''expression'', call_node ''print'' [int_node 7, JNull, JNull])])
       ''expression'' = Inr (JArray [JString ''<expression:call>'', ?p ''print'' [int_node 7, JNull, JNull]])"
    by (simp add: call_node_def)
  have h2: "getitem_str (JObject [(''expression'', call_node ''exit'' [int_node 7])])
       ''expression'' = Inr (JArray [JString ''<expression:call>'', ?p ''exit'' [int_node 7]])"
    by (simp add: call_node_def)
  have h3: "getitem_str (JObject [(''expression'', int_node 7)])
       ''expression'' = Inr (JArray [JString ''<expression:int>'', JObject [(''value'', JInt 7)]])"
    by (simp add: int_node_def)
  from C5_eval_decoding [OF h1, of "JString ''print''" "JArray [int_node 7, JNull, JNull]" "int_node 7"]
  have "statement_of_json (JString ''<statement:eval>'')
      (JObject [(''expression'', call_node ''print'' [int_node 7, JNull, JNull])])
     = Inr (PrintStatement_L1 (IntExpression_L1 (JInt 7)))"
    by (simp add: bxc_eval)
  moreover from C5_eval_decoding [OF h2, of "JString ''exit''"]
  have "statement_of_json (JString ''<statement:eval>'')
      (JObject [(''expression'', call_node ''exit'' [int_node 7])]) = Inl InvalidBXJSon"
    by (simp add: and_then_def parse_name_def except_IndexError_def name_node_def)
  moreover from C5_eval_decoding [OF h3]
  have "statement_of_json (JString ''<statement:eval>'')
      (JObject [(''expression'', int_node 7)]) = Inl InvalidBXJSon"
    by simp
  ultimately show ?thesis by simp
qed

lemma bare_tag_rejected:
  assumes "parse_tag tag = Inr (c, None)"
  shows "expression_of_json tag data = Inl InvalidBXJSon"
    and "statement_of_json tag data = Inl InvalidBXJSon"
  using assms by (simp_all add: statement_of_json_def del: parse_tag.simps)

text \<open>
  Claim C10: \<open>parse_tag\<close> accepts the tags \<open><expression>\<close> and \<open><statement>\<close> with the
  kind \<open>None\<close>, and both \<open>expression_of_json\<close> and \<open>statement_of_json\<close> reject them with
  \<open>InvalidBXJSon\<close> whatever the payload is; so they do with every tag whose kind is
  \<open>None\<close>.
\<close>

theorem C10_bare_tag_rejected:
  "parse_tag (JString ''<expression>'') = Inr (''expression'', None)
   \<and> parse_tag (JString ''<statement>'') = Inr (''statement'', None)
   \<and> expression_of_json (JString ''<expression>'') data = Inl InvalidBXJSon
   \<and> expression_of_json (JString ''<statement>'') data = Inl InvalidBXJSon
   \<and> statement_of_json (JString ''<expression>'') data = Inl InvalidBXJSon
   \<and> statement_of_json (JString ''<statement>'') data = Inl InvalidBXJSon
   \<and> (\<forall>tag c. parse_tag tag = Inr (c, None) \<longrightarrow>
         expression_of_json tag data = Inl InvalidBXJSon
         \<and> statement_of_json tag data = Inl InvalidBXJSon)"
proof -
  have e: "parse_tag (JString ''<expression>'') = Inr (''expression'', None)"
    by (simp add: match_tag_def is_word_char_def)
  have s: "parse_tag (JString ''<statement>'') = Inr (''statement'', None)"
    by (simp add: match_tag_def is_word_char_def)
  from e s bare_tag_rejected [OF e] bare_tag_rejected [OF s] bare_tag_rejected
  show ?thesis by blast
qed

theorem C10_bare_tag_rejected_witness:
  "parse_tag (JString ''<expression>'') = Inr (''expression'', None)
   \<and> expression_of_json (JString ''<expression>'') (JObject [(''value'', JInt 1)]) = Inl InvalidBXJSon
   \<and> statement_of_json (JString (''<statement>'' @ [CHR 0x0A])) (JObject [(''name'', name_node ''x'')])
        = Inl InvalidBXJSon"
proof -
  have n: "parse_tag (JString (''<statement>'' @ [CHR 0x0A])) = Inr (''statement'', None)"
    by (simp add: match_tag_def is_word_char_def)
  from C10_bare_tag_rejected [of "JObject [(''value'', JInt 1)]"]
       C10_bare_tag_rejected [of "JObject [(''name'', name_node ''x'')]"] n
  show ?thesis by blast
qed

section \<open>The interchange codec\<close>

lemma map_the_JString: "list_all is_JString xs \<Longrightarrow> map JString (map the_JString xs) = xs"
proof (induction xs)
  case Nil
  then show ?case by simp
next
  case (Cons x xs)
  then show ?case by (cases x) simp_all
qed

lemma decode_encode: "TAC_of_json (tojson x) = Inr x"
  by (cases "result x") (simp_all add: TAC_of_json_def tojson_def comp_def list_all_iff)

lemma wellformed_length:
  assumes "distinct (map fst kvs)" "set (map fst kvs) = {''opcode'', ''args'', ''result''}"
  shows "length kvs = 3"
proof -
  have "card (set (map fst kvs)) = length (map fst kvs)"
    by (rule distinct_card [OF assms(1)])
  then have "card {''opcode'', ''args'', ''result''} = length (map fst kvs)"
    unfolding assms(2) .
  then show ?thesis by simp
qed

lemma encode_decode:
  assumes "wellformed_instr d"
  shows "\<exists>x. TAC_of_json d = Inr x \<and> dict_eq (tojson x) d"
proof -
  from assms obtain kvs where d: "d = JObject kvs"
    by (cases d) (simp_all add: wellformed_instr_def)
  from assms d have dist: "distinct (map fst kvs)"
    and keys: "set (map fst kvs) = {''opcode'', ''args'', ''result''}"
    by (simp_all add: wellformed_instr_def)
  from assms d obtain opc where o: "map_of kvs ''opcode'' = Some (JString opc)"
    by (auto simp: wellformed_instr_def split: option.splits json.splits)
  from assms d obtain xs where a: "map_of kvs ''args'' = Some (JArray xs)" and s: "list_all is_JString xs"
    by (auto simp: wellformed_instr_def split: option.splits json.splits)
  from assms d obtain r where r: "map_of kvs ''result'' = Some r" and rs: "r = JNull \<or> is_JString r"
    by (auto simp: wellformed_instr_def split: option.splits json.splits)
  let ?x = "\<lparr>opcode = opc, arguments = map the_JString xs,
             result = (if r = JNull then None else Some (the_JString r))\<rparr>"
  have dec: "TAC_of_json d = Inr ?x"
    using d o a s r rs wellformed_length [OF dist keys] by (simp add: TAC_of_json_def)
  have res: "(case result ?x of None \<Rightarrow> JNull | Some q \<Rightarrow> JString q) = r"
    using rs by (cases r) auto
  have "dict_eq (tojson ?x) d"
    using d keys o a r res map_the_JString [OF s]
    by (auto simp: dict_eq_def tojson_def)
  with dec show ?thesis by blast
qed

lemma wellformed_tojson: "wellformed_instr (tojson x)"
  by (cases "result x") (auto simp: wellformed_instr_def tojson_def list_all_iff)

text \<open>
  Claim C9: decoding the object that \<open>tojson\<close> builds from an instruction gives the
  instruction back, that object is a well-formed interchange instruction, and encoding
  the decoding of a well-formed interchange instruction gives a dictionary equal to it.
\<close>

theorem C9_tac_codec_round_trip:
  "TAC_of_json (tojson x) = Inr x
   \<and> wellformed_instr (tojson x)
   \<and> (wellformed_instr d \<longrightarrow> (\<exists>y. TAC_of_json d = Inr y \<and> dict_eq (tojson y) d))"
  using decode_encode wellformed_tojson encode_decode by blast

theorem C9_tac_codec_round_trip_witness:
  "TAC_of_json (tojson \<lparr>opcode = ''add'', arguments = [''%2'', ''%3''], result = Some ''%1''\<rparr>)
     = Inr \<lparr>opcode = ''add'', arguments = [''%2'', ''%3''], result = Some ''%1''\<rparr>
   \<and> wellformed_instr
        (JObject [(''result'', JNull), (''args'', JArray [JString ''%0'']), (''opcode'', JString ''print'')])
   \<and> (\<exists>y. TAC_of_json
               (JObject [(''result'', JNull), (''args'', JArray [JString ''%0'']), (''opcode'', JString ''print'')])
             = Inr y
            \<and> dict_eq (tojson y)
               (JObject [(''result'', JNull), (''args'', JArray [JString ''%0'']), (''opcode'', JString ''print'')]))"
proof -
  have w: "wellformed_instr
        (JObject [(''result'', JNull), (''args'', JArray [JString ''%0'']), (''opcode'', JString ''print'')])"
    by (auto simp: wellformed_instr_def)
  from C9_tac_codec_round_trip
    [of "\<lparr>opcode = ''add'', arguments = [''%2'', ''%3''], result = Some ''%1''\<rparr>"
        "JObject [(''result'', JNull), (''args'', JArray [JString ''%0'']), (''opcode'', JString ''print'')]"]
    w
  show ?thesis by blast
qed

section \<open>Maximal munch: fresh temporaries are written once and defined before use\<close>

lemma digits_distinct: "distinct ''0123456789''"
  by simp

lemma digit_char_inj: "a < 10 \<Longrightarrow> b < 10 \<Longrightarrow> digit_char a = digit_char b \<Longrightarrow> a = b"
  unfolding digit_char_def using digits_distinct
  by (simp add: nth_eq_iff_index_eq del: distinct.simps)

lemma digit_char_mem: "a < 10 \<Longrightarrow> digit_char a \<in> set ''0123456789''"
  unfolding digit_char_def by (rule nth_mem) simp

lemma str_nat_step:
  "\<not> n < 10 \<Longrightarrow> str_nat n = str_nat (n div 10) @ [digit_char (n mod 10)]"
  by (subst str_nat.simps) simp

lemma str_nat_nonempty: "str_nat n \<noteq> []"
  by (subst str_nat.simps) simp

lemma str_nat_hd: "hd (str_nat n) \<in> set ''0123456789''"
proof (induction n rule: str_nat.induct)
  case (1 n)
  show ?case
  proof (cases "n < 10")
    case True
    then show ?thesis using digit_char_mem [of n] by (simp add: str_nat_digit)
  next
    case False
    with 1 have "hd (str_nat (n div 10)) \<in> set ''0123456789''" by simp
    with False str_nat_nonempty [of "n div 10"] show ?thesis
      by (simp add: str_nat_step)
  qed
qed

lemma str_nat_length_step: "\<not> n < 10 \<Longrightarrow> length (str_nat n) \<noteq> 1"
  using str_nat_nonempty [of "n div 10"] by (simp add: str_nat_step)

lemma str_nat_inj: "str_nat m = str_nat n \<Longrightarrow> m = n"
proof (induction m arbitrary: n rule: str_nat.induct)
  case (1 m)
  show ?case
  proof (cases "m < 10")
    case m: True
    show ?thesis
    proof (cases "n < 10")
      case True
      with m "1.prems" show ?thesis
        by (simp add: str_nat_digit digit_char_inj)
    next
      case False
      from m have "length (str_nat m) = 1" by (simp add: str_nat_digit)
      with str_nat_length_step [OF False] "1.prems" show ?thesis by simp
    qed
  next
    case m: False
    show ?thesis
    proof (cases "n < 10")
      case True
      then have "length (str_nat n) = 1" by (simp add: str_nat_digit)
      with str_nat_length_step [OF m] "1.prems" show ?thesis by simp
    next
      case False
      from "1.prems" have "str_nat (m div 10) = str_nat (n div 10)"
        and d: "digit_char (m mod 10) = digit_char (n mod 10)"
        by (simp_all add: str_nat_step [OF m] str_nat_step [OF False])
      with "1.IH" [OF m] have "m div 10 = n div 10" by simp
      moreover from d have "m mod 10 = n mod 10"
        by (rule digit_char_inj [rotated 2]) simp_all
      ultimately show ?thesis
        by (metis div_mult_mod_eq)
    qed
  qed
qed

lemma tmp_inj: "0 \<le> j \<Longrightarrow> 0 \<le> k \<Longrightarrow> tmp j = tmp k \<Longrightarrow> j = k"
proof -
  assume j: "0 \<le> j" and k: "0 \<le> k" and "tmp j = tmp k"
  then have "str_nat (nat j) = str_nat (nat k)"
    by (simp add: tmp_def str_int_def)
  then have "nat j = nat k" by (rule str_nat_inj)
  with j k show ?thesis by simp
qed

lemma literal_not_temporary: "\<not> is_temporary (str_int v)"
  using str_nat_hd [of "nat v"] str_nat_hd [of "nat (- v)"] str_nat_nonempty [of "nat v"]
  by (auto simp: is_temporary_def str_int_def)

lemma zero_not_temporary: "\<not> is_temporary ''0''"
  by (simp add: is_temporary_def)

lemma between_disjoint:
  assumes "between a b r" and "between b' c r" and "- 1 \<le> a" and "b \<le> b'"
  shows False
proof -
  from assms(1) obtain j where j: "a < j" "j \<le> b" "r = tmp j"
    by (auto simp: between_def)
  from assms(2) obtain k where k: "b' < k" "k \<le> c" "r = tmp k"
    by (auto simp: between_def)
  from j k assms(3,4) have "0 \<le> j" "0 \<le> k" "tmp j = tmp k" by simp_all
  then have "j = k" by (rule tmp_inj)
  with j k assms(4) show False by simp
qed

lemma between_mono:
  assumes "between a b r" and "a' \<le> a" and "b \<le> b'"
  shows "between a' b' r"
proof -
  from assms(1) obtain j where j: "a < j" "j \<le> b" "r = tmp j"
    by (auto simp: between_def)
  with assms(2,3) have "a' < j \<and> j \<le> b' \<and> r = tmp j" by simp
  then show ?thesis unfolding between_def by blast
qed

lemma results_append: "results (xs @ ys) = results xs @ results ys"
  by (simp add: results_def)

lemma results_Nil: "results [] = []"
  by (simp add: results_def)

lemma results_Cons:
  "results (i # instrs) = (case result i of None \<Rightarrow> [] | Some r \<Rightarrow> [r]) @ results instrs"
  by (simp add: results_def)

lemma dbu_append:
  "def_before_use V D (xs @ ys) \<longleftrightarrow> def_before_use V D xs \<and> def_before_use V (D @ results xs) ys"
  by (induction xs arbitrary: D) (auto simp: results_Nil results_Cons)

lemma dbu_exempt_mono:
  "def_before_use V D xs \<Longrightarrow> set V \<subseteq> set V' \<Longrightarrow> def_before_use V' D xs"
  by (induction xs arbitrary: D) (auto simp: list_all_iff)


lemma fresh_temporary_eq:
  "fresh_temporary s = (tmp (counter s + 1), s\<lparr>counter := counter s + 1\<rparr>)"
  by (simp add: fresh_temporary_def tmp_def Let_def)

lemma between_next: "between c (c + 1) (tmp (c + 1))"
  unfolding between_def by (rule exI [of _ "c + 1"]) simp

lemma lowered_var: "t \<in> ran (vars s) \<Longrightarrow> lowered V s s [] [t]"
  by (simp add: lowered_def results_Nil)

lemma lowered_Nil: "lowered V s s [] []"
  by (simp add: lowered_def results_Nil)

lemma lowered_int:
  "lowered V s (push (s\<lparr>counter := counter s + 1\<rparr>) ''const'' [str_int v] (Some (tmp (counter s + 1))))
     [\<lparr>opcode = ''const'', arguments = [str_int v], result = Some (tmp (counter s + 1))\<rparr>]
     [tmp (counter s + 1)]"
  by (simp add: lowered_def push_def results_Cons results_Nil between_next literal_not_temporary)

lemma lowered_trans:
  assumes a: "lowered V s s1 ns1 ts1" and b: "lowered V s1 s2 ns2 ts2" and c: "- 1 \<le> counter s"
  shows "lowered V s s2 (ns1 @ ns2) (ts1 @ ts2)"
proof -
  from a have a1: "tac s1 = tac s @ ns1" "vars s1 = vars s" "counter s \<le> counter s1"
    and a2: "\<forall>r \<in> set (results ns1). between (counter s) (counter s1) r"
    and a3: "distinct (results ns1)" and a4: "\<forall>D. def_before_use V D ns1"
    and a5: "\<forall>t \<in> set ts1. t \<in> ran (vars s) \<or> t \<in> set (results ns1)"
    by (simp_all add: lowered_def)
  from b have b1: "tac s2 = tac s1 @ ns2" "vars s2 = vars s1" "counter s1 \<le> counter s2"
    and b2: "\<forall>r \<in> set (results ns2). between (counter s1) (counter s2) r"
    and b3: "distinct (results ns2)" and b4: "\<forall>D. def_before_use V D ns2"
    and b5: "\<forall>t \<in> set ts2. t \<in> ran (vars s1) \<or> t \<in> set (results ns2)"
    by (simp_all add: lowered_def)
  have disj: "set (results ns1) \<inter> set (results ns2) = {}"
    using a2 b2 between_disjoint [OF _ _ c order_refl] by blast
  have rng: "\<forall>r \<in> set (results (ns1 @ ns2)). between (counter s) (counter s2) r"
    using a2 b2 a1(3) b1(3) by (auto simp: results_append intro: between_mono)
  have dist: "distinct (results (ns1 @ ns2))"
    using a3 b3 disj by (simp add: results_append)
  have dbu: "\<forall>D. def_before_use V D (ns1 @ ns2)"
    using a4 b4 by (simp add: dbu_append)
  have ts: "\<forall>t \<in> set (ts1 @ ts2). t \<in> ran (vars s) \<or> t \<in> set (results (ns1 @ ns2))"
    using a5 b5 a1(2) by (auto simp: results_append)
  from a1 b1 rng dist dbu ts show ?thesis
    unfolding lowered_def by simp
qed

lemma lowered_op:
  assumes b: "lowered V (s\<lparr>counter := counter s + 1\<rparr>) s2 ns ts"
    and c: "- 1 \<le> counter s" and v: "ran (vars s) \<subseteq> set V"
  shows "lowered V s (push s2 m ts (Some (tmp (counter s + 1))))
           (ns @ [\<lparr>opcode = m, arguments = ts, result = Some (tmp (counter s + 1))\<rparr>])
           [tmp (counter s + 1)]"
proof -
  let ?t = "tmp (counter s + 1)"
  let ?i = "\<lparr>opcode = m, arguments = ts, result = Some ?t\<rparr>"
  from b have b1: "tac s2 = tac s @ ns" "vars s2 = vars s" "counter s + 1 \<le> counter s2"
    and b2: "\<forall>r \<in> set (results ns). between (counter s + 1) (counter s2) r"
    and b3: "distinct (results ns)" and b4: "\<forall>D. def_before_use V D ns"
    and b5: "\<forall>t \<in> set ts. t \<in> ran (vars s) \<or> t \<in> set (results ns)"
    by (simp_all add: lowered_def)
  have t: "between (counter s) (counter s + 1) ?t"
    by (rule between_next)
  have fresh: "?t \<notin> set (results ns)"
    using b2 between_disjoint [OF t _ c order_refl] by blast
  have rng: "\<forall>r \<in> set (results (ns @ [?i])). between (counter s) (counter (push s2 m ts (Some ?t))) r"
    using b2 b1(3) t
    by (auto simp: results_append results_Cons results_Nil push_def intro: between_mono)
  have dist: "distinct (results (ns @ [?i]))"
    using b3 fresh by (simp add: results_append results_Cons results_Nil)
  have dbu: "\<forall>D. def_before_use V D (ns @ [?i])"
    using b4 b5 v by (auto simp: dbu_append list_all_iff)
  show ?thesis
    unfolding lowered_def using b1 rng dist dbu
    by (simp add: push_def results_append results_Cons results_Nil)
qed

lemma lowered_expression:
  "for_expression s e = Inr (t, s') \<Longrightarrow> - 1 \<le> counter s \<Longrightarrow> ran (vars s) \<subseteq> set V
     \<Longrightarrow> \<exists>ns. lowered V s s' ns [t]"
  "for_arguments s es = Inr (ts, s') \<Longrightarrow> - 1 \<le> counter s \<Longrightarrow> ran (vars s) \<subseteq> set V
     \<Longrightarrow> \<exists>ns. lowered V s s' ns ts"
proof (induction s e and s es arbitrary: t s' and ts s' rule: for_expression_for_arguments.induct)
  case (1 s n)
  from "1.prems"(1) have "vars s (name_value n) = Some t" and "s' = s"
    by (auto split: option.splits)
  then have "t \<in> ran (vars s)" and "s' = s"
    by (auto intro: ranI)
  then show ?case
    using lowered_var [of t s V] by blast
next
  case (2 s v)
  then show ?case
    using lowered_int [of V s v] by (auto simp: fresh_temporary_eq)
next
  case (3 s operator args)
  from "3.prems"(1) obtain temps s2 m where
    args: "for_arguments (s\<lparr>counter := counter s + 1\<rparr>) args = Inr (temps, s2)"
    and m: "OPCODES operator = Some m"
    and res: "t = tmp (counter s + 1)" "s' = push s2 m temps (Some (tmp (counter s + 1)))"
    by (auto simp: fresh_temporary_eq split: sum.splits option.splits)
  from "3.IH" [OF refl fresh_temporary_eq [symmetric] args] "3.prems"(2,3) obtain ns where
    "lowered V (s\<lparr>counter := counter s + 1\<rparr>) s2 ns temps"
    by auto
  from lowered_op [OF this "3.prems"(2,3), of m] res show ?case by blast
next
  case (4 s)
  then show ?case
    by (auto intro!: exI [of _ "[]"] lowered_Nil)
next
  case (5 s e es)
  from "5.prems"(1) obtain t1 s1 ts2 where
    e: "for_expression s e = Inr (t1, s1)" and es: "for_arguments s1 es = Inr (ts2, s')"
    and ts: "ts = t1 # ts2"
    by (auto split: sum.splits)
  from "5.IH"(1) [OF e "5.prems"(2,3)] obtain ns1 where l1: "lowered V s s1 ns1 [t1]"
    by blast
  then have "counter s \<le> counter s1" "vars s1 = vars s"
    by (simp_all add: lowered_def)
  with "5.prems"(2,3) have "- 1 \<le> counter s1" "ran (vars s1) \<subseteq> set V"
    by simp_all
  from "5.IH"(2) [OF e refl es this] obtain ns2 where l2: "lowered V s1 s' ns2 ts2"
    by blast
  from lowered_trans [OF l1 l2 "5.prems"(2)] ts show ?case
    by auto
qed


lemma filter_fresh:
  "t \<notin> set xs \<Longrightarrow> filter (\<lambda>r. r \<notin> set (V @ [t])) xs = filter (\<lambda>r. r \<notin> set V) xs"
  by (induction xs) auto

lemma filter_all_fresh: "set xs \<inter> set V = {} \<Longrightarrow> filter (\<lambda>r. r \<notin> set V) xs = xs"
  by (induction xs) auto

lemma inv_vardecl:
  assumes "mm_inv V s"
  shows "mm_inv (V @ [tmp (counter s + 1)])
           (push (s\<lparr>counter := counter s + 1, vars := (vars s)(x \<mapsto> tmp (counter s + 1))\<rparr>)
              ''const'' [''0'', tmp (counter s + 1)] None)"
proof -
  let ?t = "tmp (counter s + 1)"
  let ?i = "\<lparr>opcode = ''const'', arguments = [''0'', ?t], result = None\<rparr>"
  from assms have c: "- 1 \<le> counter s" and v: "ran (vars s) \<subseteq> set V"
    and vb: "\<forall>t \<in> set V. between (- 1) (counter s) t"
    and rb: "\<forall>r \<in> set (results (tac s)). between (- 1) (counter s) r"
    and d: "distinct (filter (\<lambda>r. r \<notin> set V) (results (tac s)))"
    and u: "def_before_use V [] (tac s)"
    by (simp_all add: mm_inv_def)
  have t: "between (counter s) (counter s + 1) ?t"
    by (rule between_next)
  have fresh: "?t \<notin> set (results (tac s))"
    using rb between_disjoint [OF _ t order_refl order_refl] by blast
  have res: "results (tac s @ [?i]) = results (tac s)"
    by (simp add: results_append results_Cons results_Nil)
  have v': "ran ((vars s)(x \<mapsto> ?t)) \<subseteq> set (V @ [?t])"
    using v by (auto simp: ran_def split: if_splits)
  have vb': "\<forall>r \<in> set (V @ [?t]). between (- 1) (counter s + 1) r"
    using vb t c by (auto intro: between_mono)
  have rb': "\<forall>r \<in> set (results (tac s @ [?i])). between (- 1) (counter s + 1) r"
    unfolding res using rb by (auto intro: between_mono)
  have d': "distinct (filter (\<lambda>r. r \<notin> set (V @ [?t])) (results (tac s @ [?i])))"
    unfolding res filter_fresh [OF fresh] by (rule d)
  have "def_before_use (V @ [?t]) [] (tac s)"
    by (rule dbu_exempt_mono [OF u]) auto
  then have u': "def_before_use (V @ [?t]) [] (tac s @ [?i])"
    by (simp add: dbu_append zero_not_temporary)
  from c v' vb' rb' d' u' show ?thesis
    unfolding mm_inv_def by (simp add: push_def)
qed

lemma inv_lowered:
  assumes i: "mm_inv V s" and l: "lowered V s s1 ns [temp]"
    and r: "res = None \<or> (\<exists>dst. res = Some dst \<and> dst \<in> ran (vars s))"
  shows "mm_inv V (push s1 opc [temp] res)"
proof -
  let ?i = "\<lparr>opcode = opc, arguments = [temp], result = res\<rparr>"
  from i have c: "- 1 \<le> counter s" and v: "ran (vars s) \<subseteq> set V"
    and vb: "\<forall>t \<in> set V. between (- 1) (counter s) t"
    and rb: "\<forall>r \<in> set (results (tac s)). between (- 1) (counter s) r"
    and d: "distinct (filter (\<lambda>r. r \<notin> set V) (results (tac s)))"
    and u: "def_before_use V [] (tac s)"
    by (simp_all add: mm_inv_def)
  from l have l1: "tac s1 = tac s @ ns" "vars s1 = vars s" "counter s \<le> counter s1"
    and l2: "\<forall>r \<in> set (results ns). between (counter s) (counter s1) r"
    and l3: "distinct (results ns)" and l4: "\<forall>D. def_before_use V D ns"
    and l5: "temp \<in> ran (vars s) \<or> temp \<in> set (results ns)"
    by (simp_all add: lowered_def)
  have rV: "set (results [?i]) \<subseteq> set V"
    using r v by (auto simp: results_Cons results_Nil)
  have nsV: "set (results ns) \<inter> set V = {}"
    using l2 vb between_disjoint [OF _ _ order_refl order_refl] by blast
  have old_new: "set (results (tac s)) \<inter> set (results ns) = {}"
    using l2 rb between_disjoint [OF _ _ order_refl order_refl] by blast
  have vb': "\<forall>t \<in> set V. between (- 1) (counter s1) t"
    using vb l1(3) by (auto intro: between_mono)
  have rb': "\<forall>r \<in> set (results (tac s @ ns @ [?i])). between (- 1) (counter s1) r"
    using rb l2 l1(3) c rV vb' by (auto simp: results_append intro: between_mono)
  have "filter (\<lambda>r. r \<notin> set V) (results [?i]) = []"
    using rV by (auto simp: filter_empty_conv)
  then have f: "filter (\<lambda>r. r \<notin> set V) (results (tac s @ ns @ [?i]))
      = filter (\<lambda>r. r \<notin> set V) (results (tac s)) @ results ns"
    by (simp add: results_append filter_all_fresh [OF nsV])
  have d': "distinct (filter (\<lambda>r. r \<notin> set V) (results (tac s @ ns @ [?i])))"
    unfolding f using d l3 old_new by auto
  have u': "def_before_use V [] (tac s @ ns @ [?i])"
    using u l4 l5 v by (auto simp: dbu_append)
  from c l1 v vb' rb' d' u' show ?thesis
    unfolding mm_inv_def by (simp add: push_def)
qed

lemma inv_statement:
  assumes "for_statement s stmt = Inr s'" and "mm_inv V s"
  shows "mm_inv (V @ (case stmt of VarDeclStatement n init \<Rightarrow> [fst (fresh_temporary s)] | _ \<Rightarrow> [])) s'"
proof (cases stmt)
  case (VarDeclStatement n init)
  with assms(1) inv_vardecl [OF assms(2), of "name_value n"] show ?thesis
    by (simp add: fresh_temporary_eq)
next
  case (AssignStatement lhs rhs)
  from assms(2) have c: "- 1 \<le> counter s" and v: "ran (vars s) \<subseteq> set V"
    by (simp_all add: mm_inv_def)
  from assms(1) AssignStatement obtain temp s1 dst where
    e: "for_expression s rhs = Inr (temp, s1)" and dst: "vars s1 (name_value lhs) = Some dst"
    and s': "s' = push s1 ''copy'' [temp] (Some dst)"
    by (auto split: sum.splits option.splits)
  from lowered_expression(1) [OF e c v] obtain ns where l: "lowered V s s1 ns [temp]"
    by blast
  then have "vars s1 = vars s" by (simp add: lowered_def)
  with dst have "dst \<in> ran (vars s)" by (auto intro: ranI)
  with inv_lowered [OF assms(2) l, of "Some dst" "''copy''"] s' AssignStatement show ?thesis
    by simp
next
  case (PrintStatement v)
  from assms(2) have c: "- 1 \<le> counter s" and vs: "ran (vars s) \<subseteq> set V"
    by (simp_all add: mm_inv_def)
  from assms(1) PrintStatement obtain temp s1 where
    e: "for_expression s v = Inr (temp, s1)" and s': "s' = push s1 ''print'' [temp] None"
    by (auto split: sum.splits)
  from lowered_expression(1) [OF e c vs] obtain ns where l: "lowered V s s1 ns [temp]"
    by blast
  with inv_lowered [OF assms(2) l, of None "''print''"] s' PrintStatement show ?thesis
    by simp
qed

lemma inv_program:
  "for_program s prgm = Inr s' \<Longrightarrow> mm_inv V s \<Longrightarrow> mm_inv (V @ declared_temporaries s prgm) s'"
proof (induction prgm arbitrary: s V)
  case Nil
  then show ?case by simp
next
  case (Cons stmt prgm)
  from Cons.prems(1) obtain s1 where
    st: "for_statement s stmt = Inr s1" and rest: "for_program s1 prgm = Inr s'"
    by (auto split: sum.splits)
  from Cons.IH [OF rest inv_statement [OF st Cons.prems(2)]] st show ?case
    by simp
qed

lemma inv_init: "mm_inv [] MM_init"
  by (simp add: mm_inv_def MM_init_def results_Nil)

text \<open>
  Claim C1, amended: in the sequence that a program is lowered to, every temporary that
  is written, other than the temporaries bound to declared variables, is written by one
  instruction only; and every temporary among the arguments of an instruction, other
  than those bound to declared variables, is written by an earlier instruction. (The
  temporary of a variable is written by every assignment to it.)
\<close>

theorem C1_single_assignment_but_variables:
  assumes "mm prgm = Inr instrs"
  shows "distinct (filter (\<lambda>r. r \<notin> set (declared_temporaries MM_init prgm)) (results instrs))
       \<and> def_before_use (declared_temporaries MM_init prgm) [] instrs"
proof -
  from assms obtain s where s: "for_program MM_init prgm = Inr s" and i: "instrs = tac s"
    by (auto simp: mm_def split: sum.splits)
  from inv_program [OF s inv_init] i show ?thesis
    by (simp add: mm_inv_def)
qed

text \<open>
  Claim C1 as stated fails: two assignments to a variable both write the temporary
  bound to it, so the lowered sequence is not in single-assignment form.
\<close>

theorem C1_assigned_twice_counterexample:
  "map_sum id single_assignment (mm assigned_twice) = Inr False"
  by (simp add: assigned_twice_def mm_eval single_assignment_def results_Cons results_Nil)

theorem C1_single_assignment_but_variables_witness:
  "mm scenario_A = Inr
     [\<lparr>opcode = ''const'', arguments = [''0'', ''%0''], result = None\<rparr>,
      \<lparr>opcode = ''const'', arguments = [''1''], result = Some ''%2''\<rparr>,
      \<lparr>opcode = ''const'', arguments = [''2''], result = Some ''%3''\<rparr>,
      \<lparr>opcode = ''add'', arguments = [''%2'', ''%3''], result = Some ''%1''\<rparr>,
      \<lparr>opcode = ''copy'', arguments = [''%1''], result = Some ''%0''\<rparr>,
      \<lparr>opcode = ''print'', arguments = [''%0''], result = None\<rparr>]
   \<and> declared_temporaries MM_init scenario_A = [''%0'']
   \<and> distinct (filter (\<lambda>r. r \<notin> set [''%0'']) [''%2'', ''%3'', ''%1'', ''%0''])
   \<and> def_before_use [''%0''] []
     [\<lparr>opcode = ''const'', arguments = [''0'', ''%0''], result = None\<rparr>,
      \<lparr>opcode = ''const'', arguments = [''1''], result = Some ''%2''\<rparr>,
      \<lparr>opcode = ''const'', arguments = [''2''], result = Some ''%3''\<rparr>,
      \<lparr>opcode = ''add'', arguments = [''%2'', ''%3''], result = Some ''%1''\<rparr>,
      \<lparr>opcode = ''copy'', arguments = [''%1''], result = Some ''%0''\<rparr>,
      \<lparr>opcode = ''print'', arguments = [''%0''], result = None\<rparr>]"
proof -
  have h: "mm scenario_A = Inr
     [\<lparr>opcode = ''const'', arguments = [''0'', ''%0''], result = None\<rparr>,
      \<lparr>opcode = ''const'', arguments = [''1''], result = Some ''%2''\<rparr>,
      \<lparr>opcode = ''const'', arguments = [''2''], result = Some ''%3''\<rparr>,
      \<lparr>opcode = ''add'', arguments = [''%2'', ''%3''], result = Some ''%1''\<rparr>,
      \<lparr>opcode = ''copy'', arguments = [''%1''], result = Some ''%0''\<rparr>,
      \<lparr>opcode = ''print'', arguments = [''%0''], result = None\<rparr>]"
    by (simp add: scenario_A_def mm_eval)
  have d: "declared_temporaries MM_init scenario_A = [''%0'']"
    by (simp add: scenario_A_def mm_eval)
  from C1_single_assignment_but_variables [OF h] h d show ?thesis
    by (simp add: results_Cons results_Nil)
qed

end
